theory Spec2Isabelle
  imports Main "HOL-Library.Word"
begin

section \<open>Telephone game backend: the chain orchestrator of \<open>backend/main.py\<close>\<close>

text \<open>
  The development embeds \<open>_run_telephone_stream\<close>, the two registry lookups
  \<open>_get_asr\<close> and \<open>_get_tts\<close>, and the two HTTP endpoints that start a run.
  Python identifiers keep their names, without the leading underscore that Isabelle
  does not admit.

  A Python \<open>str\<close> is modelled as a \<open>string\<close> whose characters stand for code
  points below 256, \<open>bytes\<close> as a list of 8-bit words, the unbounded \<open>int\<close> as
  \<open>int\<close>.
\<close>

subsection \<open>Strings: \<open>str.strip()\<close>\<close>

text \<open>
  \<open>str.isspace\<close> on the code points below 256: TAB, LF, VT, FF, CR, the four
  separators FS, GS, RS, US, the space, NEL (0x85) and the no-break space (0xA0).
\<close>

definition isspace :: "char \<Rightarrow> bool" where
  "isspace c =
     (let n = (of_char c :: nat)
      in (9 \<le> n \<and> n \<le> 13) \<or> (28 \<le> n \<and> n \<le> 32) \<or> n = 133 \<or> n = 160)"

definition strip :: "string \<Rightarrow> string" where
  "strip s = rev (dropWhile isspace (rev (dropWhile isspace s)))"

subsection \<open>Exceptions\<close>

text \<open>
  What a backend raises is opaque to the orchestrator but for two observations: whether
  the exception's class derives from \<open>Exception\<close> (the handler is
  \<open>except Exception as e\<close>; \<open>KeyboardInterrupt\<close>, \<open>SystemExit\<close> and the other
  classes that derive from \<open>BaseException\<close> only are not caught by it), and what
  \<open>str(e)\<close> does. A class defines \<open>__str__\<close> as it likes: \<open>str(e)\<close> returns
  the message (\<open>Inr\<close>) or raises an exception of its own (\<open>Inl\<close>).
\<close>

datatype backend_exc = BackendExc (is_Exception: bool) (exc_str: "backend_exc + string")

text \<open>
  The exceptions that leave the code of \<open>main.py\<close>: the two it raises itself, the
  rejection of a request body by the \<open>GameParams\<close> model, and a backend's exception
  that no handler caught.
\<close>

datatype raised =
    HTTPException int string
  | ValueError string
  | RequestValidationError string
  | Propagated backend_exc

subsection \<open>The model registry and the adapters\<close>

datatype asr_class = LocalWhisperASRAdapter

datatype tts_class = ChatterboxTTSAdapter | ChatterboxTurboTTSAdapter

definition ASR_MODELS :: "string \<rightharpoonup> asr_class" where
  "ASR_MODELS = [''whisper'' \<mapsto> LocalWhisperASRAdapter]"

definition TTS_MODELS :: "string \<rightharpoonup> tts_class" where
  "TTS_MODELS = [''chatterbox'' \<mapsto> ChatterboxTTSAdapter,
                 ''chatterbox-turbo'' \<mapsto> ChatterboxTurboTTSAdapter]"

type_synonym byte = "8 word"

text \<open>
  The speech models are external. Their behaviour is a parameter of the development:
  a record of functions over a state \<open>'w\<close> of the outside world (loaded models,
  files, devices), which every call may read and change. Constructing an adapter
  (\<open>ASR_MODELS[asr_model]()\<close>) may raise as well: \<open>LocalWhisperASRAdapter.__init__\<close>
  loads the Whisper model. An adapter instance is identified by its class; whatever
  state it keeps is part of \<open>'w\<close>.
\<close>

record 'w extern =
  asr_init :: "asr_class \<Rightarrow> 'w \<Rightarrow> backend_exc option \<times> 'w"
  tts_init :: "tts_class \<Rightarrow> 'w \<Rightarrow> backend_exc option \<times> 'w"
  synthesize :: "tts_class \<Rightarrow> string \<Rightarrow> 'w \<Rightarrow> (backend_exc + byte list) \<times> 'w"
  transcribe :: "asr_class \<Rightarrow> byte list \<Rightarrow> string \<Rightarrow> 'w \<Rightarrow> (backend_exc + string) \<times> 'w"

definition get_asr :: "'w extern \<Rightarrow> string \<Rightarrow> 'w \<Rightarrow> (raised + asr_class) \<times> 'w" where
  "get_asr X asr_model w =
     (case ASR_MODELS asr_model of
        None \<Rightarrow> (Inl (HTTPException 400 (''Unknown ASR model: '' @ asr_model)), w)
      | Some cls \<Rightarrow>
          (case asr_init X cls w of
             (Some e, w') \<Rightarrow> (Inl (Propagated e), w')
           | (None, w') \<Rightarrow> (Inr cls, w')))"

definition get_tts :: "'w extern \<Rightarrow> string \<Rightarrow> 'w \<Rightarrow> (raised + tts_class) \<times> 'w" where
  "get_tts X tts_model w =
     (case TTS_MODELS tts_model of
        None \<Rightarrow> (Inl (HTTPException 400 (''Unknown TTS model: '' @ tts_model)), w)
      | Some cls \<Rightarrow>
          (case tts_init X cls w of
             (Some e, w') \<Rightarrow> (Inl (Propagated e), w')
           | (None, w') \<Rightarrow> (Inr cls, w')))"

subsection \<open>Base64\<close>

text \<open>
  \<open>base64.b64encode\<close> of the standard library (RFC 4648, standard alphabet, padded),
  followed by \<open>.decode("ascii")\<close>.
\<close>

definition b64_alphabet :: string where
  "b64_alphabet = ''ABCDEFGHIJKLMNOPQRSTUVWXYZabcdefghijklmnopqrstuvwxyz0123456789+/''"

definition b64_char :: "nat \<Rightarrow> char" where
  "b64_char n = b64_alphabet ! n"

fun b64encode :: "byte list \<Rightarrow> string" where
  "b64encode [] = []"
| "b64encode [a] =
     [b64_char (unat a div 4), b64_char (unat a mod 4 * 16), CHR ''='', CHR ''='']"
| "b64encode [a, b] =
     [b64_char (unat a div 4), b64_char (unat a mod 4 * 16 + unat b div 16),
      b64_char (unat b mod 16 * 4), CHR ''='']"
| "b64encode (a # b # c # rest) =
     [b64_char (unat a div 4), b64_char (unat a mod 4 * 16 + unat b div 16),
      b64_char (unat b mod 16 * 4 + unat c div 64), b64_char (unat c mod 64)]
     @ b64encode rest"

text \<open>
  The inverse a consumer of the stream applies (\<open>base64.b64decode\<close>, strict): four
  characters give three bytes, and only the last group may be padded.
\<close>

fun index_of :: "'a \<Rightarrow> 'a list \<Rightarrow> nat option" where
  "index_of x [] = None"
| "index_of x (y # ys) = (if x = y then Some 0 else map_option Suc (index_of x ys))"

definition b64_index :: "char \<Rightarrow> nat option" where
  "b64_index c = index_of c b64_alphabet"

fun b64decode :: "string \<Rightarrow> byte list option" where
  "b64decode [] = Some []"
| "b64decode (c1 # c2 # c3 # c4 # rest) =
     (if rest = [] \<and> c3 = CHR ''='' \<and> c4 = CHR ''='' then
        (case (b64_index c1, b64_index c2) of
           (Some x1, Some x2) \<Rightarrow> Some [word_of_nat (x1 * 4 + x2 div 16)]
         | _ \<Rightarrow> None)
      else if rest = [] \<and> c4 = CHR ''='' then
        (case (b64_index c1, b64_index c2, b64_index c3) of
           (Some x1, Some x2, Some x3) \<Rightarrow>
             Some [word_of_nat (x1 * 4 + x2 div 16), word_of_nat (x2 mod 16 * 16 + x3 div 4)]
         | _ \<Rightarrow> None)
      else
        (case (b64_index c1, b64_index c2, b64_index c3, b64_index c4) of
           (Some x1, Some x2, Some x3, Some x4) \<Rightarrow>
             map_option
               (\<lambda>bs. word_of_nat (x1 * 4 + x2 div 16)
                     # word_of_nat (x2 mod 16 * 16 + x3 div 4)
                     # word_of_nat (x3 mod 4 * 64 + x4) # bs)
               (b64decode rest)
         | _ \<Rightarrow> None))"
| "b64decode _ = None"

subsection \<open>Progress events\<close>

text \<open>
  An event is the dictionary handed to \<open>_sse_message\<close>, in the order of its literal.
\<close>

datatype json = JStr string | JInt int

type_synonym event = "(string \<times> json) list"

definition tts_error_event :: "int \<Rightarrow> string \<Rightarrow> event" where
  "tts_error_event child_index message =
     [(''type'', JStr ''error''), (''step'', JStr ''tts''),
      (''child_index'', JInt child_index), (''message'', JStr message)]"

definition tts_event :: "int \<Rightarrow> string \<Rightarrow> string \<Rightarrow> event" where
  "tts_event child_index current_text audio_b64 =
     [(''type'', JStr ''tts''), (''child_index'', JInt child_index),
      (''text'', JStr current_text), (''audio_base64'', JStr audio_b64)]"

definition stt_error_event :: "int \<Rightarrow> string \<Rightarrow> event" where
  "stt_error_event child_index message =
     [(''type'', JStr ''error''), (''step'', JStr ''stt''),
      (''child_index'', JInt child_index), (''message'', JStr message)]"

definition stt_event :: "int \<Rightarrow> string \<Rightarrow> event" where
  "stt_event child_index current_text =
     [(''type'', JStr ''stt''), (''child_index'', JInt child_index),
      (''text'', JStr current_text)]"

definition done_event :: "string \<Rightarrow> event" where
  "done_event current_text = [(''type'', JStr ''done''), (''final_text'', JStr current_text)]"

text \<open>
  \<open>_sse_message\<close> frames the serialised dictionary; \<open>json.dumps\<close> is a parameter.
\<close>

definition sse_message :: "(event \<Rightarrow> string) \<Rightarrow> event \<Rightarrow> string" where
  "sse_message dumps data = ''data: '' @ dumps data @ [CHR 0x0A, CHR 0x0A]"

text \<open>Reading a field of an event, and the two terminal kinds.\<close>

definition field :: "string \<Rightarrow> event \<Rightarrow> json option" where
  "field k ev = map_of ev k"

definition is_error :: "event \<Rightarrow> bool" where
  "is_error ev = (field ''type'' ev = Some (JStr ''error''))"

definition is_finished :: "event \<Rightarrow> bool" where
  "is_finished ev = (field ''type'' ev = Some (JStr ''done''))"

definition is_terminal :: "event \<Rightarrow> bool" where
  "is_terminal ev = (is_error ev \<or> is_finished ev)"

text \<open>The kind tag and the step index of an event.\<close>

definition shape :: "event \<Rightarrow> json option \<times> json option" where
  "shape ev = (field ''type'' ev, field ''child_index'' ev)"

subsection \<open>The orchestrator\<close>

text \<open>
  Running the asynchronous generator to its end gives the events it yielded, in order,
  how it ended (it returned, or an exception left it), and the final state of the
  world. The string the generator yields for an event \<open>ev\<close> is
  \<open>sse_message dumps ev\<close>; the statements below are about the events.
\<close>

datatype completion = Returned | Raised raised

text \<open>\<open>range(num_children)\<close>: empty when \<open>num_children \<le> 0\<close>.\<close>

definition range_py :: "int \<Rightarrow> int list" where
  "range_py n = map int [0..<nat n]"

text \<open>
  The \<open>for\<close> loop, over the indices still to come, followed by the final
  \<open>yield\<close> of the \<open>done\<close> message. In a handler, \<open>str(e)\<close> is evaluated
  while the dictionary of the \<open>error\<close> message is built, before the \<open>yield\<close>:
  when it raises, nothing is yielded and its exception leaves the generator.
\<close>

fun children_loop ::
  "'w extern \<Rightarrow> asr_class \<Rightarrow> tts_class \<Rightarrow> int list \<Rightarrow> string \<Rightarrow> 'w
     \<Rightarrow> event list \<times> completion \<times> 'w" where
  "children_loop X asr tts [] current_text w = ([done_event current_text], Returned, w)"
| "children_loop X asr tts (child_index # rest) current_text w =
     (case synthesize X tts current_text w of
        (Inl e, w1) \<Rightarrow>
          if is_Exception e then
            (case exc_str e of
               Inr message \<Rightarrow> ([tts_error_event child_index message], Returned, w1)
             | Inl e' \<Rightarrow> ([], Raised (Propagated e'), w1))
          else ([], Raised (Propagated e), w1)
      | (Inr audio_bytes, w1) \<Rightarrow>
          (let audio_b64 = b64encode audio_bytes;
               ev1 = tts_event child_index current_text audio_b64
           in case transcribe X asr audio_bytes ''audio/wav'' w1 of
                (Inl e, w2) \<Rightarrow>
                  if is_Exception e then
                    (case exc_str e of
                       Inr message \<Rightarrow>
                         ([ev1, stt_error_event child_index message], Returned, w2)
                     | Inl e' \<Rightarrow> ([ev1], Raised (Propagated e'), w2))
                  else ([ev1], Raised (Propagated e), w2)
              | (Inr current_text', w2) \<Rightarrow>
                  (case children_loop X asr tts rest current_text' w2 of
                     (evs, c, w3) \<Rightarrow>
                       (ev1 # stt_event child_index current_text' # evs, c, w3))))"

definition run_telephone_stream ::
  "'w extern \<Rightarrow> int \<Rightarrow> string \<Rightarrow> string \<Rightarrow> string \<Rightarrow> 'w \<Rightarrow> event list \<times> completion \<times> 'w" where
  "run_telephone_stream X num_children asr_model tts_model initial_text w =
     (case get_asr X asr_model w of
        (Inl e, w1) \<Rightarrow> ([], Raised e, w1)
      | (Inr asr, w1) \<Rightarrow>
          (case get_tts X tts_model w1 of
             (Inl e, w2) \<Rightarrow> ([], Raised e, w2)
           | (Inr tts, w2) \<Rightarrow>
               (let current_text = strip initial_text
                in if current_text = [] then ([], Raised (ValueError ''Initial text is empty''), w2)
                   else children_loop X asr tts (range_py num_children) current_text w2)))"

subsection \<open>The endpoints\<close>

text \<open>
  An endpoint either raises before any response is started, or hands the generator to
  a \<open>StreamingResponse\<close>, which runs it; the result of that run is the body of the
  response.
\<close>

type_synonym 'w response = "(raised + event list \<times> completion) \<times> 'w"

text \<open>
  \<open>POST /api/game/start\<close> (multipart form). The form field \<open>num_children\<close> is
  declared \<open>int = Form(4)\<close>, with no bound. An upload is its contents and its
  declared content type.
\<close>

definition start_game_stream ::
  "'w extern \<Rightarrow> int \<Rightarrow> string \<Rightarrow> string \<Rightarrow> string option \<Rightarrow> (byte list \<times> string option) option
     \<Rightarrow> 'w \<Rightarrow> 'w response" where
  "start_game_stream X num_children asr_model tts_model text_field audio w =
     (let stripped = strip (case text_field of None \<Rightarrow> [] | Some t \<Rightarrow> t);
          initial_text = (if stripped = [] then None else Some stripped)
      in if initial_text = None \<and> audio = None then
           (Inl (HTTPException 400 ''Provide either 'text' or 'audio' file.''), w)
         else if initial_text \<noteq> None \<and> audio \<noteq> None then
           (Inl (HTTPException 400 ''Provide either 'text' or 'audio', not both.''), w)
         else
           (case audio of
              Some (contents, content_type) \<Rightarrow>
                (case get_asr X asr_model w of
                   (Inl e, w1) \<Rightarrow> (Inl e, w1)
                 | (Inr asr, w1) \<Rightarrow>
                     (case transcribe X asr contents
                             (case content_type of
                                None \<Rightarrow> ''audio/wav''
                              | Some ct \<Rightarrow> if ct = [] then ''audio/wav'' else ct) w1 of
                        (Inl e, w2) \<Rightarrow>
                          if is_Exception e then
                            (case exc_str e of
                               Inr message \<Rightarrow>
                                 (Inl (HTTPException 400 (''ASR failed: '' @ message)), w2)
                             | Inl e' \<Rightarrow> (Inl (Propagated e'), w2))
                          else (Inl (Propagated e), w2)
                      | (Inr transcribed, w2) \<Rightarrow>
                          if transcribed = []
                          then (Inl (HTTPException 400 ''No speech detected in audio.''), w2)
                          else
                            (case run_telephone_stream X num_children asr_model tts_model
                                    transcribed w2 of
                               (evs, c, w3) \<Rightarrow> (Inr (evs, c), w3))))
            | None \<Rightarrow>
                (case run_telephone_stream X num_children asr_model tts_model
                        (case initial_text of None \<Rightarrow> [] | Some t \<Rightarrow> t) w of
                   (evs, c, w3) \<Rightarrow> (Inr (evs, c), w3))))"

text \<open>
  \<open>POST /api/game/start/json\<close>. The body is validated against \<open>GameParams\<close>
  before the handler runs: \<open>num_children\<close> has \<open>ge=1, le=20\<close> and the default 4.
\<close>

record GameParams =
  p_num_children :: int
  p_asr_model :: string
  p_tts_model :: string
  p_text :: "string option"

record request_body =
  b_num_children :: "int option"
  b_asr_model :: "string option"
  b_tts_model :: "string option"
  b_text :: "string option"

definition parse_GameParams :: "request_body \<Rightarrow> raised + GameParams" where
  "parse_GameParams b =
     (let n = (case b_num_children b of None \<Rightarrow> 4 | Some n \<Rightarrow> n)
      in if n < 1 \<or> 20 < n then Inl (RequestValidationError ''num_children'')
         else Inr \<lparr>p_num_children = n,
                   p_asr_model = (case b_asr_model b of None \<Rightarrow> ''whisper'' | Some m \<Rightarrow> m),
                   p_tts_model = (case b_tts_model b of None \<Rightarrow> ''chatterbox'' | Some m \<Rightarrow> m),
                   p_text = b_text b\<rparr>)"

definition start_game_stream_json :: "'w extern \<Rightarrow> request_body \<Rightarrow> 'w \<Rightarrow> 'w response" where
  "start_game_stream_json X body w =
     (case parse_GameParams body of
        Inl e \<Rightarrow> (Inl e, w)
      | Inr params \<Rightarrow>
          (let initial_text = strip (case p_text params of None \<Rightarrow> [] | Some t \<Rightarrow> t)
           in if initial_text = [] then (Inl (HTTPException 400 ''Provide 'text' in body.''), w)
              else
                (case run_telephone_stream X (p_num_children params) (p_asr_model params)
                        (p_tts_model params) initial_text w of
                   (evs, c, w3) \<Rightarrow> (Inr (evs, c), w3))))"

subsection \<open>Vocabulary for the statements\<close>

text \<open>
  The state in which the loop body runs for the \<open>k\<close>-th time, when the \<open>k\<close>
  bodies before it each got their audio and their transcription: the current text and
  the world. \<open>None\<close> when one of those calls raised.
\<close>

fun chain_state ::
  "'w extern \<Rightarrow> asr_class \<Rightarrow> tts_class \<Rightarrow> nat \<Rightarrow> string \<Rightarrow> 'w \<Rightarrow> (string \<times> 'w) option" where
  "chain_state X asr tts 0 current_text w = Some (current_text, w)"
| "chain_state X asr tts (Suc k) current_text w =
     (case synthesize X tts current_text w of
        (Inl e, w1) \<Rightarrow> None
      | (Inr audio_bytes, w1) \<Rightarrow>
          (case transcribe X asr audio_bytes ''audio/wav'' w1 of
             (Inl e, w2) \<Rightarrow> None
           | (Inr current_text', w2) \<Rightarrow> chain_state X asr tts k current_text' w2))"

text \<open>The kind tags and indices of the two progress events of step \<open>k\<close>.\<close>

definition step_shapes :: "int \<Rightarrow> (json option \<times> json option) list" where
  "step_shapes k = [(Some (JStr ''tts''), Some (JInt k)), (Some (JStr ''stt''), Some (JInt k))]"

text \<open>The events that report a recognition, and the events yielded before the error.\<close>

definition is_recognition_done :: "event \<Rightarrow> bool" where
  "is_recognition_done ev = (field ''type'' ev = Some (JStr ''stt''))"

definition events_before_error :: "event list \<Rightarrow> nat" where
  "events_before_error evs = length (takeWhile (\<lambda>ev. \<not> is_error ev) evs)"

text \<open>The bytes a consumer gets back from the \<open>audio_base64\<close> field of an event.\<close>

definition decoded_audio :: "event \<Rightarrow> byte list option" where
  "decoded_audio ev =
     (case field ''audio_base64'' ev of Some (JStr a) \<Rightarrow> b64decode a | _ \<Rightarrow> None)"

subsection \<open>Test doubles\<close>

text \<open>
  Scripted backends for the concrete runs below: the world counts the calls made to
  each backend, the \<open>i\<close>-th synthesis answers \<open>tts_script i\<close> and the \<open>j\<close>-th
  recognition \<open>asr_script j\<close>, whatever their arguments; constructing an adapter
  succeeds.
\<close>

definition stub_extern ::
  "(nat \<Rightarrow> backend_exc + byte list) \<Rightarrow> (nat \<Rightarrow> backend_exc + string) \<Rightarrow> (nat \<times> nat) extern" where
  "stub_extern tts_script asr_script =
     \<lparr>asr_init = (\<lambda>cls w. (None, w)),
      tts_init = (\<lambda>cls w. (None, w)),
      synthesize = (\<lambda>cls t w. (tts_script (fst w), (Suc (fst w), snd w))),
      transcribe = (\<lambda>cls a ct w. (asr_script (snd w), (fst w, Suc (snd w))))\<rparr>"

text \<open>The scenario of the specification: fixed audio, and ``hello world'' heard back.\<close>

definition echo_extern :: "(nat \<times> nat) extern" where
  "echo_extern = stub_extern (\<lambda>i. Inr [0x52, 0x49, 0x46, 0x46]) (\<lambda>j. Inr ''hello world'')"

text \<open>A backend that raises at its \<open>k\<close>-th call only.\<close>

definition failing_tts :: "nat \<Rightarrow> backend_exc \<Rightarrow> nat \<Rightarrow> backend_exc + byte list" where
  "failing_tts k e i = (if i = k then Inl e else Inr [0x52, 0x49, 0x46, 0x46])"

definition failing_asr :: "nat \<Rightarrow> backend_exc \<Rightarrow> nat \<Rightarrow> backend_exc + string" where
  "failing_asr k e j = (if j = k then Inl e else Inr ''hello world'')"

text \<open>The same backends, with a Whisper model that cannot be loaded.\<close>

definition unloadable_whisper_extern :: "(nat \<times> nat) extern" where
  "unloadable_whisper_extern =
     echo_extern\<lparr>asr_init :=
       (\<lambda>cls w. (Some (BackendExc True (Inr ''checkpoint not found'')), w))\<rparr>"

section \<open>Auxiliary facts\<close>

subsection \<open>Stripping\<close>

lemma dropWhile_rev_dropWhile_Nil:
  "dropWhile P (rev (dropWhile P s)) = [] \<longleftrightarrow> dropWhile P s = []"
proof
  assume a: "dropWhile P (rev (dropWhile P s)) = []"
  show "dropWhile P s = []"
  proof (rule ccontr)
    assume n: "dropWhile P s \<noteq> []"
    then have "\<not> P (hd (dropWhile P s))" by (rule hd_dropWhile)
    moreover have "hd (dropWhile P s) \<in> set (dropWhile P s)" using n by simp
    moreover from a have "\<forall>x\<in>set (dropWhile P s). P x"
      by (simp add: dropWhile_eq_Nil_conv)
    ultimately show False by blast
  qed
next
  assume "dropWhile P s = []"
  then show "dropWhile P (rev (dropWhile P s)) = []"
    by (simp del: dropWhile_eq_Nil_conv)
qed

lemma strip_empty_iff: "strip s = [] \<longleftrightarrow> (\<forall>c\<in>set s. isspace c)"
proof -
  have "strip s = [] \<longleftrightarrow> dropWhile isspace s = []"
    unfolding strip_def rev_is_Nil_conv by (rule dropWhile_rev_dropWhile_Nil)
  then show ?thesis by (simp add: dropWhile_eq_Nil_conv)
qed

lemma strip_no_leading_space:
  assumes "strip s \<noteq> []"
  shows "\<not> isspace (hd (strip s))"
proof -
  let ?ys = "dropWhile isspace s"
  have split: "?ys = strip s @ rev (takeWhile isspace (rev ?ys))"
  proof -
    have "strip s @ rev (takeWhile isspace (rev ?ys))
            = rev (takeWhile isspace (rev ?ys) @ dropWhile isspace (rev ?ys))"
      by (simp only: strip_def rev_append)
    also have "\<dots> = rev (rev ?ys)" by (simp only: takeWhile_dropWhile_id)
    also have "\<dots> = ?ys" by simp
    finally show ?thesis by simp
  qed
  from assms have "?ys \<noteq> []" by (simp add: strip_empty_iff)
  then have "\<not> isspace (hd ?ys)" by (rule hd_dropWhile)
  moreover from split assms have "hd ?ys = hd (strip s)"
    by (metis hd_append2)
  ultimately show ?thesis by simp
qed

lemma strip_strip: "strip (strip s) = strip s"
proof (cases "strip s = []")
  case True
  have "strip [] = []" by (simp add: strip_def)
  with True show ?thesis by (simp only:)
next
  case False
  then have "\<not> isspace (hd (strip s))" by (rule strip_no_leading_space)
  with False have "dropWhile isspace (strip s) = strip s"
    by (cases "strip s") simp_all
  then have "strip (strip s) = rev (dropWhile isspace (rev (strip s)))"
    by (simp add: strip_def)
  also have "rev (strip s) = dropWhile isspace (rev (dropWhile isspace s))"
    by (simp add: strip_def)
  also have "rev (dropWhile isspace (dropWhile isspace (rev (dropWhile isspace s)))) = strip s"
    by (simp add: strip_def)
  finally show ?thesis .
qed

subsection \<open>Resolution does not touch the speech calls\<close>

lemma range_py_nonpositive: "n \<le> 0 \<Longrightarrow> range_py n = []"
  by (simp add: range_py_def)

lemma get_asr_backends_irrelevant:
  "get_asr (X\<lparr>synthesize := f, transcribe := g\<rparr>) k w = get_asr X k w"
  by (simp add: get_asr_def split: option.splits)

lemma get_tts_backends_irrelevant:
  "get_tts (X\<lparr>synthesize := f, transcribe := g\<rparr>) k w = get_tts X k w"
  by (simp add: get_tts_def split: option.splits)

subsection \<open>The events of the loop\<close>

lemma shape_tts_event [simp]:
  "shape (tts_event i t a) = (Some (JStr ''tts''), Some (JInt i))"
  by (simp add: shape_def field_def tts_event_def)

lemma shape_stt_event [simp]:
  "shape (stt_event i t) = (Some (JStr ''stt''), Some (JInt i))"
  by (simp add: shape_def field_def stt_event_def)

lemma shape_tts_error_event [simp]:
  "shape (tts_error_event i m) = (Some (JStr ''error''), Some (JInt i))"
  by (simp add: shape_def field_def tts_error_event_def)

lemma shape_stt_error_event [simp]:
  "shape (stt_error_event i m) = (Some (JStr ''error''), Some (JInt i))"
  by (simp add: shape_def field_def stt_error_event_def)

lemma shape_done_event [simp]:
  "shape (done_event t) = (Some (JStr ''done''), None)"
  by (simp add: shape_def field_def done_event_def)

lemma is_terminal_shape:
  "is_terminal ev \<longleftrightarrow> fst (shape ev) = Some (JStr ''error'') \<or> fst (shape ev) = Some (JStr ''done'')"
  by (simp add: is_terminal_def is_error_def is_finished_def shape_def)

lemma chain_state_Suc_SomeD:
  assumes "chain_state X asr tts (Suc k) t w = Some s"
  obtains a w1 t1 w2 where "synthesize X tts t w = (Inr a, w1)"
    and "transcribe X asr a ''audio/wav'' w1 = (Inr t1, w2)"
    and "chain_state X asr tts k t1 w2 = Some s"
  using assms by (auto split: prod.splits sum.splits)

lemma children_loop_prefix:
  assumes "chain_state X asr tts (length ks) t w = Some (t', w')"
  shows "\<exists>pre. children_loop X asr tts (ks @ rest) t w
             = (pre @ fst (children_loop X asr tts rest t' w'),
                snd (children_loop X asr tts rest t' w'))
           \<and> map shape pre = concat (map step_shapes ks)
           \<and> (ks \<noteq> [] \<longrightarrow> last pre = stt_event (last ks) t')"
  using assms
proof (induction ks arbitrary: t w)
  case Nil
  then show ?case by simp
next
  case (Cons k ks)
  from Cons.prems have "chain_state X asr tts (Suc (length ks)) t w = Some (t', w')"
    by simp
  then obtain a w1 t1 w2 where
    syn: "synthesize X tts t w = (Inr a, w1)" and
    tra: "transcribe X asr a ''audio/wav'' w1 = (Inr t1, w2)" and
    rest: "chain_state X asr tts (length ks) t1 w2 = Some (t', w')"
    by (rule chain_state_Suc_SomeD)
  from Cons.IH [OF rest] obtain pre where
    run: "children_loop X asr tts (ks @ rest) t1 w2
            = (pre @ fst (children_loop X asr tts rest t' w'),
               snd (children_loop X asr tts rest t' w'))" and
    shp: "map shape pre = concat (map step_shapes ks)" and
    lst: "ks \<noteq> [] \<longrightarrow> last pre = stt_event (last ks) t'"
    by blast
  let ?pre = "tts_event k t (b64encode a) # stt_event k t1 # pre"
  have "children_loop X asr tts ((k # ks) @ rest) t w
          = (?pre @ fst (children_loop X asr tts rest t' w'),
             snd (children_loop X asr tts rest t' w'))"
    by (simp add: syn tra run)
  moreover have "map shape ?pre = concat (map step_shapes (k # ks))"
    by (simp add: shp step_shapes_def)
  moreover have "last ?pre = stt_event (last (k # ks)) t'"
  proof (cases ks)
    case Nil
    with rest shp show ?thesis by simp
  next
    case (Cons k' ks')
    with shp have "pre \<noteq> []" by (auto simp: step_shapes_def)
    with lst Cons show ?thesis by simp
  qed
  ultimately show ?case by blast
qed

lemma length_concat_step_shapes: "length (concat (map step_shapes ks)) = 2 * length ks"
  by (induction ks) (simp_all add: step_shapes_def)


lemma length_range_py: "length (range_py n) = nat n"
  by (simp add: range_py_def)

lemma run_telephone_stream_resolved:
  assumes "\<exists>c\<in>set initial_text. \<not> isspace c"
    and "get_asr X asr_model w = (Inr asr, w1)"
    and "get_tts X tts_model w1 = (Inr tts, w2)"
  shows "run_telephone_stream X n asr_model tts_model initial_text w
           = children_loop X asr tts (range_py n) (strip initial_text) w2"
proof -
  from assms(1) have "strip initial_text \<noteq> []" by (simp add: strip_empty_iff)
  with assms(2,3) show ?thesis by (simp add: run_telephone_stream_def)
qed

lemma successful_loop:
  assumes "chain_state X asr tts (length ks) t w = Some (t', w')"
  shows "\<exists>pre. children_loop X asr tts ks t w = (pre @ [done_event t'], Returned, w')
           \<and> map shape pre = concat (map step_shapes ks)
           \<and> (ks \<noteq> [] \<longrightarrow> last pre = stt_event (last ks) t')"
  using children_loop_prefix [OF assms, of "[]"] by simp

lemma echo_resolves:
  "get_asr echo_extern ''whisper'' w = (Inr LocalWhisperASRAdapter, w)"
  "get_tts echo_extern ''chatterbox'' w = (Inr ChatterboxTTSAdapter, w)"
  by (simp_all add: get_asr_def get_tts_def ASR_MODELS_def TTS_MODELS_def echo_extern_def stub_extern_def)

lemma echo_chain_2:
  "chain_state echo_extern LocalWhisperASRAdapter ChatterboxTTSAdapter (nat 2) ''hello world'' (0, 0)
     = Some (''hello world'', (2, 2))"
  by (simp add: eval_nat_numeral echo_extern_def stub_extern_def)

lemma is_recognition_done_shape:
  "is_recognition_done ev \<longleftrightarrow> fst (shape ev) = Some (JStr ''stt'')"
  by (simp add: is_recognition_done_def shape_def)

lemma last_filter_keeps_last:
  "xs \<noteq> [] \<Longrightarrow> P (last xs) \<Longrightarrow> last (filter P xs) = last xs"
  by (induction xs rule: rev_induct) simp_all

lemma field_text_stt_event: "field ''text'' (stt_event k t) = Some (JStr t)"
  by (simp add: field_def stt_event_def)

lemma field_final_text_done_event: "field ''final_text'' (done_event t) = Some (JStr t)"
  by (simp add: field_def done_event_def)

lemma range_py_split:
  assumes "int k < N"
  shows "range_py N = map int [0..<k] @ int k # map int [Suc k..<nat N]"
proof -
  from assms have "k < nat N" by simp
  then have "[0..<nat N] = [0..<k] @ k # [Suc k..<nat N]"
    by (metis upt_conv_Cons upt_add_eq_append le0 less_imp_le_nat add_0 le_add_diff_inverse)
  then show ?thesis by (simp add: range_py_def)
qed

lemma loop_reaches_step:
  assumes "int k < N"
    and "chain_state X asr tts k t0 w0 = Some (t, w)"
  shows "\<exists>pre. children_loop X asr tts (range_py N) t0 w0
             = (pre @ fst (children_loop X asr tts (int k # map int [Suc k..<nat N]) t w),
                snd (children_loop X asr tts (int k # map int [Suc k..<nat N]) t w))
           \<and> map shape pre = concat (map step_shapes (map int [0..<k]))
           \<and> length pre = 2 * k"
proof -
  from assms(2) have "chain_state X asr tts (length (map int [0..<k])) t0 w0 = Some (t, w)"
    by simp
  from children_loop_prefix [OF this, of "int k # map int [Suc k..<nat N]"]
  obtain pre where
    run: "children_loop X asr tts (map int [0..<k] @ int k # map int [Suc k..<nat N]) t0 w0
             = (pre @ fst (children_loop X asr tts (int k # map int [Suc k..<nat N]) t w),
                snd (children_loop X asr tts (int k # map int [Suc k..<nat N]) t w))" and
    shp: "map shape pre = concat (map step_shapes (map int [0..<k]))"
    by blast
  from shp have "length (map shape pre) = 2 * length (map int [0..<k])"
    by (simp only: length_concat_step_shapes)
  then have "length pre = 2 * k" by simp
  with run shp show ?thesis unfolding range_py_split [OF assms(1)] by blast
qed

lemma step_shapes_not_error:
  "map shape pre = concat (map step_shapes ks) \<Longrightarrow> ev \<in> set pre \<Longrightarrow> \<not> is_error ev"
proof -
  assume a: "map shape pre = concat (map step_shapes ks)" and b: "ev \<in> set pre"
  from b have "shape ev \<in> set (map shape pre)" by simp
  with a have "shape ev \<in> set (concat (map step_shapes ks))" by simp
  then have "fst (shape ev) \<noteq> Some (JStr ''error'')"
    by (auto simp: step_shapes_def)
  then show ?thesis by (simp add: is_error_def shape_def)
qed

lemma step_shapes_index_below:
  "map shape pre = concat (map step_shapes (map int [0..<k])) \<Longrightarrow> ev \<in> set pre
     \<Longrightarrow> shape ev \<noteq> (Some (JStr ''stt''), Some (JInt (int k)))"
proof -
  assume a: "map shape pre = concat (map step_shapes (map int [0..<k]))" and b: "ev \<in> set pre"
  from b have "shape ev \<in> set (map shape pre)" by simp
  with a have "shape ev \<in> set (concat (map step_shapes (map int [0..<k])))" by simp
  then show ?thesis by (auto simp: step_shapes_def)
qed

lemma events_before_error_append:
  assumes "\<forall>ev\<in>set pre. \<not> is_error ev"
  shows "events_before_error (pre @ [tts_error_event i m]) = length pre"
    and "events_before_error pre = length pre"
proof -
  have "is_error (tts_error_event i m)"
    by (simp add: is_error_def field_def tts_error_event_def)
  with assms show "events_before_error (pre @ [tts_error_event i m]) = length pre"
    by (simp add: events_before_error_def takeWhile_append2)
  from assms have "takeWhile (\<lambda>ev. \<not> is_error ev) pre = pre"
    by (simp only: takeWhile_eq_all_conv)
  then show "events_before_error pre = length pre"
    by (simp only: events_before_error_def)
qed

lemma stub_resolves:
  "get_asr (stub_extern f g) ''whisper'' w = (Inr LocalWhisperASRAdapter, w)"
  "get_tts (stub_extern f g) ''chatterbox'' w = (Inr ChatterboxTTSAdapter, w)"
  by (simp_all add: get_asr_def get_tts_def ASR_MODELS_def TTS_MODELS_def stub_extern_def)

lemma strip_hi: "strip ''hi'' = ''hi''"
  by (simp add: strip_def isspace_def)

lemma nonblank_hi: "\<exists>c\<in>set ''hi''. \<not> isspace c"
  by (simp add: isspace_def)

lemma step_shapes_not_terminal:
  assumes "map shape pre = concat (map step_shapes ks)" and "ev \<in> set pre"
  shows "\<not> is_terminal ev"
proof -
  from assms(2) have "shape ev \<in> set (map shape pre)" by simp
  with assms(1) have "shape ev \<in> set (concat (map step_shapes ks))" by simp
  then have "fst (shape ev) = Some (JStr ''tts'') \<or> fst (shape ev) = Some (JStr ''stt'')"
    by (auto simp: step_shapes_def)
  then show ?thesis by (auto simp: is_terminal_shape)
qed






lemma run_telephone_stream_backends_irrelevant_unresolved:
  assumes "ASR_MODELS asr_model = None \<or> TTS_MODELS tts_model = None"
  shows "run_telephone_stream (X\<lparr>synthesize := f, transcribe := g\<rparr>) N asr_model tts_model
            initial_text w
         = run_telephone_stream X N asr_model tts_model initial_text w"
proof (cases "get_asr X asr_model w")
  case (Pair r w1)
  show ?thesis
  proof (cases r)
    case (Inl e)
    with Pair show ?thesis
      by (simp add: run_telephone_stream_def get_asr_backends_irrelevant)
  next
    case (Inr asr)
    with Pair have "ASR_MODELS asr_model \<noteq> None"
      by (auto simp: get_asr_def split: option.splits)
    with assms have "TTS_MODELS tts_model = None" by simp
    then have "get_tts X tts_model w1
        = (Inl (HTTPException 400 (''Unknown TTS model: '' @ tts_model)), w1)"
      by (simp add: get_tts_def)
    with Pair Inr show ?thesis
      by (simp add: run_telephone_stream_def get_asr_backends_irrelevant
          get_tts_backends_irrelevant)
  qed
qed

subsection \<open>Base64 decoding inverts encoding\<close>

lemma index_of_nth:
  "distinct xs \<Longrightarrow> n < length xs \<Longrightarrow> index_of (xs ! n) xs = Some n"
proof (induction xs arbitrary: n)
  case Nil
  then show ?case by simp
next
  case (Cons x xs)
  show ?case
  proof (cases n)
    case 0
    then show ?thesis by simp
  next
    case (Suc m)
    with Cons.prems have "xs ! m \<in> set xs" and "x \<notin> set xs" by auto
    then have "xs ! m \<noteq> x" by auto
    with Suc Cons show ?thesis by auto
  qed
qed

lemma distinct_b64_alphabet: "distinct b64_alphabet"
  unfolding b64_alphabet_def by simp

lemma length_b64_alphabet: "length b64_alphabet = 64"
  unfolding b64_alphabet_def by simp

lemma b64_index_char: "n < 64 \<Longrightarrow> b64_index (b64_char n) = Some n"
  unfolding b64_index_def b64_char_def
  by (rule index_of_nth) (simp_all add: distinct_b64_alphabet length_b64_alphabet)

lemma b64_char_not_pad: "n < 64 \<Longrightarrow> b64_char n \<noteq> CHR ''=''"
proof
  assume n: "n < 64" and eq: "b64_char n = CHR ''=''"
  from n have "b64_char n \<in> set b64_alphabet"
    unfolding b64_char_def by (simp add: length_b64_alphabet)
  with eq have "CHR ''='' \<in> set b64_alphabet" by simp
  then show False unfolding b64_alphabet_def by simp
qed


lemma unat_byte: "unat (a :: byte) < 256"
  using unsigned_less [of a, where ?'a = nat] by simp

lemma div_bound: "(n::nat) < 256 \<Longrightarrow> n div 4 < 64 \<and> n div 16 < 16 \<and> n div 64 < 4"
  by (simp add: less_mult_imp_div_less)

lemma pack_bound:
  fixes r d :: nat
  shows "r < 4 \<Longrightarrow> d < 16 \<Longrightarrow> r * 16 + d < 64"
    and "r < 16 \<Longrightarrow> d < 4 \<Longrightarrow> r * 4 + d < 64"
    and "r < 4 \<Longrightarrow> r * 16 < 64"
    and "r < 16 \<Longrightarrow> r * 4 < 64"
  by linarith+

lemma unpack:
  fixes r d :: nat
  shows "d < 16 \<Longrightarrow> (r * 16 + d) div 16 = r"
    and "d < 16 \<Longrightarrow> (r * 16 + d) mod 16 = d"
    and "d < 4 \<Longrightarrow> (r * 4 + d) div 4 = r"
    and "d < 4 \<Longrightarrow> (r * 4 + d) mod 4 = d"
    and "(r * 16) div 16 = r"
    and "(r * 4) div 4 = r"
  by simp_all

lemma sextets_bound:
  fixes A B C :: nat
  assumes "A < 256" "B < 256" "C < 256"
  shows "A div 4 < 64" "A mod 4 * 16 + B div 16 < 64" "B mod 16 * 4 + C div 64 < 64"
    "C mod 64 < 64" "A mod 4 * 16 < 64" "B mod 16 * 4 < 64"
proof -
  have a: "A mod 4 < 4" and b: "B mod 16 < 16" by simp_all
  from assms div_bound [of A] div_bound [of B] div_bound [of C]
  have da: "A div 4 < 64" and db: "B div 16 < 16" and dc: "C div 64 < 4" by blast+
  show "A div 4 < 64" by (rule da)
  show "A mod 4 * 16 + B div 16 < 64" using a db by (rule pack_bound)
  show "B mod 16 * 4 + C div 64 < 64" using b dc by (rule pack_bound)
  show "C mod 64 < 64" by simp
  show "A mod 4 * 16 < 64" using a by (rule pack_bound)
  show "B mod 16 * 4 < 64" using b by (rule pack_bound)
qed

lemma sextets_recombine:
  fixes A B C :: nat
  assumes "A < 256" "B < 256" "C < 256"
  shows "A div 4 * 4 + (A mod 4 * 16 + B div 16) div 16 = A"
    "(A mod 4 * 16 + B div 16) mod 16 * 16 + (B mod 16 * 4 + C div 64) div 4 = B"
    "(B mod 16 * 4 + C div 64) mod 4 * 64 + C mod 64 = C"
    "A div 4 * 4 + (A mod 4 * 16) div 16 = A"
    "(A mod 4 * 16 + B div 16) mod 16 * 16 + (B mod 16 * 4) div 4 = B"
proof -
  from assms div_bound [of B] div_bound [of C]
  have db: "B div 16 < 16" and dc: "C div 64 < 4" by blast+
  have qa: "A div 4 * 4 + A mod 4 = A" and qb: "B div 16 * 16 + B mod 16 = B"
    and qc: "C div 64 * 64 + C mod 64 = C"
    by (rule div_mult_mod_eq)+
  show "A div 4 * 4 + (A mod 4 * 16 + B div 16) div 16 = A"
    unfolding unpack(1) [OF db] by (rule qa)
  show "(A mod 4 * 16 + B div 16) mod 16 * 16 + (B mod 16 * 4 + C div 64) div 4 = B"
    unfolding unpack(2) [OF db] unpack(3) [OF dc] by (rule qb)
  show "(B mod 16 * 4 + C div 64) mod 4 * 64 + C mod 64 = C"
    unfolding unpack(4) [OF dc] by (rule qc)
  show "A div 4 * 4 + (A mod 4 * 16) div 16 = A"
    unfolding unpack(5) by (rule qa)
  show "(A mod 4 * 16 + B div 16) mod 16 * 16 + (B mod 16 * 4) div 4 = B"
    unfolding unpack(2) [OF db] unpack(6) by (rule qb)
qed

lemma b64decode_group:
  assumes "x1 < 64" "x2 < 64" "x3 < 64" "x4 < 64"
  shows "b64decode (b64_char x1 # b64_char x2 # b64_char x3 # b64_char x4 # rest)
           = map_option
               (\<lambda>bs. word_of_nat (x1 * 4 + x2 div 16)
                     # word_of_nat (x2 mod 16 * 16 + x3 div 4)
                     # word_of_nat (x3 mod 4 * 64 + x4) # bs)
               (b64decode rest)"
  using assms by (simp add: b64_index_char b64_char_not_pad)

lemma b64decode_pad1:
  assumes "x1 < 64" "x2 < 64" "x3 < 64"
  shows "b64decode [b64_char x1, b64_char x2, b64_char x3, CHR ''='']
           = Some [word_of_nat (x1 * 4 + x2 div 16), word_of_nat (x2 mod 16 * 16 + x3 div 4)]"
  using assms by (simp add: b64_index_char b64_char_not_pad)

lemma b64decode_pad2:
  assumes "x1 < 64" "x2 < 64"
  shows "b64decode [b64_char x1, b64_char x2, CHR ''='', CHR ''='']
           = Some [word_of_nat (x1 * 4 + x2 div 16)]"
  using assms by (simp add: b64_index_char)

lemma b64decode_b64encode: "b64decode (b64encode bs) = Some bs"
proof (induction bs rule: b64encode.induct)
  case 1
  show ?case by simp
next
  case (2 a)
  note A = unat_byte [of a]
  have "b64decode (b64encode [a])
          = Some [word_of_nat (unat a div 4 * 4 + (unat a mod 4 * 16) div 16)]"
    unfolding b64encode.simps
    by (rule b64decode_pad2) (rule sextets_bound [OF A A A])+
  also have "unat a div 4 * 4 + (unat a mod 4 * 16) div 16 = unat a"
    by (rule sextets_recombine [OF A A A])
  finally show ?case by simp
next
  case (3 a b)
  note A = unat_byte [of a] and B = unat_byte [of b]
  have "b64decode (b64encode [a, b])
          = Some [word_of_nat (unat a div 4 * 4 + (unat a mod 4 * 16 + unat b div 16) div 16),
                  word_of_nat ((unat a mod 4 * 16 + unat b div 16) mod 16 * 16
                                + (unat b mod 16 * 4) div 4)]"
    unfolding b64encode.simps
    by (rule b64decode_pad1) (rule sextets_bound [OF A B B])+
  also have "unat a div 4 * 4 + (unat a mod 4 * 16 + unat b div 16) div 16 = unat a"
    by (rule sextets_recombine [OF A B B])
  also have "(unat a mod 4 * 16 + unat b div 16) mod 16 * 16 + (unat b mod 16 * 4) div 4 = unat b"
    by (rule sextets_recombine [OF A B B])
  finally show ?case by simp
next
  case (4 a b c rest)
  note A = unat_byte [of a] and B = unat_byte [of b] and C = unat_byte [of c]
  have "b64decode (b64encode (a # b # c # rest))
          = map_option
              (\<lambda>bs. word_of_nat (unat a div 4 * 4 + (unat a mod 4 * 16 + unat b div 16) div 16)
                    # word_of_nat ((unat a mod 4 * 16 + unat b div 16) mod 16 * 16
                                   + (unat b mod 16 * 4 + unat c div 64) div 4)
                    # word_of_nat ((unat b mod 16 * 4 + unat c div 64) mod 4 * 64 + unat c mod 64)
                    # bs)
              (b64decode (b64encode rest))"
    unfolding b64encode.simps append_Cons append_Nil
    by (rule b64decode_group) (rule sextets_bound [OF A B C])+
  also have "unat a div 4 * 4 + (unat a mod 4 * 16 + unat b div 16) div 16 = unat a"
    by (rule sextets_recombine [OF A B C])
  also have "(unat a mod 4 * 16 + unat b div 16) mod 16 * 16
               + (unat b mod 16 * 4 + unat c div 64) div 4 = unat b"
    by (rule sextets_recombine [OF A B C])
  also have "(unat b mod 16 * 4 + unat c div 64) mod 4 * 64 + unat c mod 64 = unat c"
    by (rule sextets_recombine [OF A B C])
  finally show ?case by (simp add: "4.IH")
qed

lemma b64encode_text_safe: "c \<in> set (b64encode bs) \<Longrightarrow> c \<in> set b64_alphabet \<or> c = CHR ''=''"
proof (induction bs rule: b64encode.induct)
  case 1
  then show ?case by simp
next
  case (2 a)
  note A = unat_byte [of a]
  have "b64_char n \<in> set b64_alphabet" if "n < 64" for n
    using that unfolding b64_char_def by (simp add: length_b64_alphabet)
  with sextets_bound [OF A A A] 2 show ?case by auto
next
  case (3 a b)
  note A = unat_byte [of a] and B = unat_byte [of b]
  have "b64_char n \<in> set b64_alphabet" if "n < 64" for n
    using that unfolding b64_char_def by (simp add: length_b64_alphabet)
  with sextets_bound [OF A B B] 3 show ?case by auto
next
  case (4 a b c rest)
  note A = unat_byte [of a] and B = unat_byte [of b] and C = unat_byte [of c]
  have "b64_char n \<in> set b64_alphabet" if "n < 64" for n
    using that unfolding b64_char_def by (simp add: length_b64_alphabet)
  with sextets_bound [OF A B C] 4 show ?case by auto
qed

lemma children_loop_first_event:
  assumes "synthesize X tts t w = (Inr a, w1)"
  shows "\<exists>tl. fst (children_loop X asr tts (k # rest) t w) = tts_event k t (b64encode a) # tl"
proof (cases "transcribe X asr a ''audio/wav'' w1")
  case (Pair r w2)
  show ?thesis
  proof (cases r)
    case (Inl e)
    with Pair assms show ?thesis by (cases "is_Exception e") (simp_all add: Let_def split: sum.splits)
  next
    case (Inr t1)
    obtain evs1 c1 w3 where "children_loop X asr tts rest t1 w2 = (evs1, c1, w3)"
      by (cases "children_loop X asr tts rest t1 w2") auto
    with Pair Inr assms show ?thesis by simp
  qed
qed

lemma decoded_audio_tts_event: "decoded_audio (tts_event k t (b64encode a)) = Some a"
  by (simp add: decoded_audio_def field_def tts_event_def b64decode_b64encode)

lemma field_audio_tts_event: "field ''audio_base64'' (tts_event k t p) = Some (JStr p)"
  by (simp add: field_def tts_event_def)

section \<open>The claims\<close>

subsection \<open>A run with no participant\<close>

text \<open>
  Claim C10. When \<open>_run_telephone_stream\<close> is called with \<open>num_children \<le> 0\<close> and
  an initial text that has a character other than whitespace, and both adapters
  resolve, the loop body never runs: the stream consists of exactly one event, which is
  a \<open>done\<close> event whose \<open>final_text\<close> is the stripped initial text (the
  dictionary \<open>{"type": "done", "final_text": \<dots>}\<close>), the generator returns, and
  neither \<open>synthesize\<close> nor \<open>transcribe\<close> is called (the world is left as
  resolution left it, and replacing both functions by any others changes nothing). The
  multipart endpoint, whose \<open>num_children\<close> field is unbounded, hands such a request
  to the generator and streams that one event.
\<close>

theorem nonpositive_count_yields_only_done:
  assumes "num_children \<le> 0"
    and "\<exists>c\<in>set initial_text. \<not> isspace c"
    and "get_asr X asr_model w = (Inr asr, w1)"
    and "get_tts X tts_model w1 = (Inr tts, w2)"
  shows "\<exists>ev. run_telephone_stream X num_children asr_model tts_model initial_text w
               = ([ev], Returned, w2)
           \<and> is_finished ev \<and> \<not> is_error ev
           \<and> field ''final_text'' ev = Some (JStr (strip initial_text))
           \<and> ev = [(''type'', JStr ''done''), (''final_text'', JStr (strip initial_text))]
           \<and> (\<forall>f g. run_telephone_stream (X\<lparr>synthesize := f, transcribe := g\<rparr>)
                       num_children asr_model tts_model initial_text w
                     = ([ev], Returned, w2))
           \<and> start_game_stream X num_children asr_model tts_model (Some initial_text) None w
               = (Inr ([ev], Returned), w2)"
proof -
  let ?ev = "[(''type'', JStr ''done''), (''final_text'', JStr (strip initial_text))]"
  from assms(2) have ne: "strip initial_text \<noteq> []" by (simp add: strip_empty_iff)
  have run: "run_telephone_stream (X\<lparr>synthesize := f, transcribe := g\<rparr>)
               num_children asr_model tts_model initial_text w
             = ([?ev], Returned, w2)" for f g
    using ne assms(1,3,4)
    by (simp add: run_telephone_stream_def get_asr_backends_irrelevant
        get_tts_backends_irrelevant range_py_nonpositive done_event_def)
  from run [where f = "synthesize X" and g = "transcribe X"]
  have c1: "run_telephone_stream X num_children asr_model tts_model initial_text w
             = ([?ev], Returned, w2)"
    by simp
  have idem: "strip (strip initial_text) = strip initial_text"
    by (simp add: strip_strip)
  have c6: "start_game_stream X num_children asr_model tts_model (Some initial_text) None w
           = (Inr ([?ev], Returned), w2)"
    using ne assms(1,3,4)
    by (simp add: start_game_stream_def run_telephone_stream_def idem range_py_nonpositive
        done_event_def)
  have c2: "is_finished ?ev \<and> \<not> is_error ?ev"
    by (simp add: is_finished_def is_error_def field_def)
  have c3: "field ''final_text'' ?ev = Some (JStr (strip initial_text))"
    by (simp add: field_def)
  have c5: "\<forall>f g. run_telephone_stream (X\<lparr>synthesize := f, transcribe := g\<rparr>)
                       num_children asr_model tts_model initial_text w
                     = ([?ev], Returned, w2)"
    by (intro allI) (rule run)
  show ?thesis
    by (rule exI [of _ ?ev]) (intro conjI c1 c2 [THEN conjunct1] c2 [THEN conjunct2] c3 refl c5 c6)
qed

theorem nonpositive_count_witness:
  "run_telephone_stream echo_extern (- 3) ''whisper'' ''chatterbox-turbo'' '' hi  '' (0, 0)
     = ([[(''type'', JStr ''done''), (''final_text'', JStr ''hi'')]], Returned, (0, 0))
   \<and> start_game_stream echo_extern (- 3) ''whisper'' ''chatterbox-turbo'' (Some '' hi  '') None (0, 0)
     = (Inr ([[(''type'', JStr ''done''), (''final_text'', JStr ''hi'')]], Returned), (0, 0))
   \<and> is_finished [(''type'', JStr ''done''), (''final_text'', JStr ''hi'')]
   \<and> field ''final_text'' [(''type'', JStr ''done''), (''final_text'', JStr ''hi'')]
     = Some (JStr ''hi'')"
proof -
  have h1: "(- 3 :: int) \<le> 0" by simp
  have h2: "\<exists>c\<in>set '' hi  ''. \<not> isspace c" by (simp add: isspace_def)
  have h3: "get_asr echo_extern ''whisper'' (0, 0) = (Inr LocalWhisperASRAdapter, (0, 0))"
    by (simp add: get_asr_def ASR_MODELS_def echo_extern_def stub_extern_def)
  have h4: "get_tts echo_extern ''chatterbox-turbo'' (0, 0) = (Inr ChatterboxTurboTTSAdapter, (0, 0))"
    by (simp add: get_tts_def TTS_MODELS_def echo_extern_def stub_extern_def)
  have s: "strip '' hi  '' = ''hi''" by (simp add: strip_def isspace_def)
  from nonpositive_count_yields_only_done [OF h1 h2 h3 h4] obtain ev where
    run: "run_telephone_stream echo_extern (- 3) ''whisper'' ''chatterbox-turbo'' '' hi  '' (0, 0)
            = ([ev], Returned, (0, 0))" and
    fin: "is_finished ev" and
    final: "field ''final_text'' ev = Some (JStr (strip '' hi  ''))" and
    ev: "ev = [(''type'', JStr ''done''), (''final_text'', JStr (strip '' hi  ''))]" and
    form: "start_game_stream echo_extern (- 3) ''whisper'' ''chatterbox-turbo'' (Some '' hi  '')
             None (0, 0) = (Inr ([ev], Returned), (0, 0))"
    by blast
  from run fin final form show ?thesis unfolding ev s by (intro conjI)
qed

subsection \<open>The events of a successful run\<close>

text \<open>
  Claim C1. For every \<open>num_children = N \<ge> 1\<close> and every initial text with a character
  other than whitespace, once both adapters resolve: if each of the \<open>N\<close> synthesis
  calls and each of the \<open>N\<close> recognition calls returns (the chain reaches its state
  after \<open>N\<close> steps), the generator returns after yielding exactly \<open>2N + 1\<close> events,
  which are, for \<open>k = 0, \<dots>, N - 1\<close> in increasing order, the \<open>tts\<close> event of
  step \<open>k\<close> immediately followed by the \<open>stt\<close> event of step \<open>k\<close>, and then one
  \<open>done\<close> event.
\<close>

theorem successful_run_event_sequence:
  assumes "1 \<le> N"
    and "\<exists>c\<in>set initial_text. \<not> isspace c"
    and "get_asr X asr_model w = (Inr asr, w1)"
    and "get_tts X tts_model w1 = (Inr tts, w2)"
    and "chain_state X asr tts (nat N) (strip initial_text) w2 = Some (final_text, w3)"
  shows "\<exists>evs. run_telephone_stream X N asr_model tts_model initial_text w = (evs, Returned, w3)
           \<and> int (length evs) = 2 * N + 1
           \<and> map shape evs
               = concat (map step_shapes (range_py N)) @ [(Some (JStr ''done''), None)]"
proof -
  from assms(5) have "chain_state X asr tts (length (range_py N)) (strip initial_text) w2
      = Some (final_text, w3)"
    by (simp add: length_range_py)
  from successful_loop [OF this] obtain pre where
    run: "children_loop X asr tts (range_py N) (strip initial_text) w2
            = (pre @ [done_event final_text], Returned, w3)" and
    shp: "map shape pre = concat (map step_shapes (range_py N))"
    by blast
  from shp have "length (map shape pre) = 2 * length (range_py N)"
    by (simp only: length_concat_step_shapes)
  with assms(1) have len: "int (length (pre @ [done_event final_text])) = 2 * N + 1"
    by (simp add: length_range_py)
  have "map shape (pre @ [done_event final_text])
          = concat (map step_shapes (range_py N)) @ [(Some (JStr ''done''), None)]"
    by (simp add: shp)
  with run len show ?thesis
    unfolding run_telephone_stream_resolved [OF assms(2,3,4)] by blast
qed

theorem successful_run_witness:
  "\<exists>evs. run_telephone_stream echo_extern 2 ''whisper'' ''chatterbox'' ''hello world'' (0, 0)
            = (evs, Returned, (2, 2))
         \<and> int (length evs) = 5
         \<and> map shape evs
             = [(Some (JStr ''tts''), Some (JInt 0)), (Some (JStr ''stt''), Some (JInt 0)),
                (Some (JStr ''tts''), Some (JInt 1)), (Some (JStr ''stt''), Some (JInt 1)),
                (Some (JStr ''done''), None)]"
proof -
  have h1: "(1::int) \<le> 2" by simp
  have h2: "\<exists>c\<in>set ''hello world''. \<not> isspace c" by (simp add: isspace_def)
  have s: "strip ''hello world'' = ''hello world''" by (simp add: strip_def isspace_def)
  have r: "range_py 2 = [0, 1]" by (simp add: range_py_def eval_nat_numeral upt_rec)
  have h5: "chain_state echo_extern LocalWhisperASRAdapter ChatterboxTTSAdapter (nat 2)
              (strip ''hello world'') (0, 0) = Some (''hello world'', (2, 2))"
    unfolding s by (rule echo_chain_2)
  from successful_run_event_sequence [OF h1 h2 echo_resolves(1) echo_resolves(2) h5]
  show ?thesis unfolding r by (simp add: step_shapes_def)
qed

subsection \<open>The final text\<close>

text \<open>
  Claim C4. In every successful run (\<open>N \<ge> 1\<close>, the adapters resolve, the initial text
  is not blank, and every synthesis and recognition call returns), the \<open>final_text\<close>
  of the \<open>done\<close> event, which is the last event, equals the \<open>text\<close> field of the last
  \<open>stt\<close> event of the stream; both are the current text after the last recognition.
\<close>

theorem final_text_is_last_recognition:
  assumes "1 \<le> N"
    and "\<exists>c\<in>set initial_text. \<not> isspace c"
    and "get_asr X asr_model w = (Inr asr, w1)"
    and "get_tts X tts_model w1 = (Inr tts, w2)"
    and "chain_state X asr tts (nat N) (strip initial_text) w2 = Some (final_text, w3)"
  shows "\<exists>evs. run_telephone_stream X N asr_model tts_model initial_text w = (evs, Returned, w3)
           \<and> is_finished (last evs)
           \<and> field ''final_text'' (last evs)
               = field ''text'' (last (filter is_recognition_done evs))
           \<and> field ''final_text'' (last evs) = Some (JStr final_text)"
proof -
  from assms(1) have ne: "range_py N \<noteq> []"
    using length_range_py [of N] by auto
  from assms(5) have "chain_state X asr tts (length (range_py N)) (strip initial_text) w2
      = Some (final_text, w3)"
    by (simp add: length_range_py)
  from successful_loop [OF this] ne obtain pre where
    run: "children_loop X asr tts (range_py N) (strip initial_text) w2
            = (pre @ [done_event final_text], Returned, w3)" and
    shp: "map shape pre = concat (map step_shapes (range_py N))" and
    lst: "last pre = stt_event (last (range_py N)) final_text"
    by blast
  from shp ne have pre_ne: "pre \<noteq> []"
    by (cases "range_py N") (auto simp: step_shapes_def)
  let ?evs = "pre @ [done_event final_text]"
  have fin: "is_finished (last ?evs)"
    by (simp add: is_finished_def field_def done_event_def)
  have "filter is_recognition_done ?evs = filter is_recognition_done pre"
    by (simp add: is_recognition_done_shape)
  moreover have "last (filter is_recognition_done pre) = last pre"
    using pre_ne by (rule last_filter_keeps_last) (simp add: lst is_recognition_done_shape)
  ultimately have "field ''text'' (last (filter is_recognition_done ?evs)) = Some (JStr final_text)"
    by (simp add: lst field_text_stt_event)
  moreover have "field ''final_text'' (last ?evs) = Some (JStr final_text)"
    by (simp add: field_final_text_done_event)
  ultimately show ?thesis
    unfolding run_telephone_stream_resolved [OF assms(2,3,4)] using run fin by simp
qed

theorem final_text_witness:
  "\<exists>evs. run_telephone_stream echo_extern 2 ''whisper'' ''chatterbox'' ''  Hello  '' (0, 0)
            = (evs, Returned, (2, 2))
         \<and> is_finished (last evs)
         \<and> field ''final_text'' (last evs) = field ''text'' (last (filter is_recognition_done evs))
         \<and> field ''final_text'' (last evs) = Some (JStr ''hello world'')"
proof -
  have h1: "(1::int) \<le> 2" by simp
  have h2: "\<exists>c\<in>set ''  Hello  ''. \<not> isspace c" by (simp add: isspace_def)
  have h5: "chain_state echo_extern LocalWhisperASRAdapter ChatterboxTTSAdapter (nat 2)
              (strip ''  Hello  '') (0, 0) = Some (''hello world'', (2, 2))"
    by (simp add: eval_nat_numeral echo_extern_def stub_extern_def)
  from final_text_is_last_recognition [OF h1 h2 echo_resolves(1) echo_resolves(2) h5]
  show ?thesis .
qed

subsection \<open>A synthesis that fails\<close>

text \<open>
  Claim C2, as amended. When the synthesis call of step \<open>k\<close> raises and all earlier
  steps succeeded, exactly \<open>2k\<close> events are yielded before the failure: the \<open>tts\<close>
  and \<open>stt\<close> events of the steps \<open>0, \<dots>, k - 1\<close>, in order, none of them an error;
  and no \<open>stt\<close> event of step \<open>k\<close> is ever yielded. If the exception derives from
  \<open>Exception\<close> and \<open>str(e)\<close> returns, the \<open>error\<close> event of stage \<open>tts\<close> and
  step \<open>k\<close> follows as the last event, the \<open>(2k + 1)\<close>-th of the stream, and the
  generator returns; otherwise an exception leaves the generator after the \<open>2k\<close>
  events.
\<close>

theorem synthesis_failure_events:
  assumes "\<exists>c\<in>set initial_text. \<not> isspace c"
    and "get_asr X asr_model w = (Inr asr, w1)"
    and "get_tts X tts_model w1 = (Inr tts, w2)"
    and "int k < N"
    and "chain_state X asr tts k (strip initial_text) w2 = Some (t, wk)"
    and "synthesize X tts t wk = (Inl e, w3)"
  shows "\<exists>pre. run_telephone_stream X N asr_model tts_model initial_text w
             = (if is_Exception e then
                  (case exc_str e of
                     Inr message \<Rightarrow>
                       (pre @ [[(''type'', JStr ''error''), (''step'', JStr ''tts''),
                                (''child_index'', JInt (int k)), (''message'', JStr message)]],
                        Returned, w3)
                   | Inl e' \<Rightarrow> (pre, Raised (Propagated e'), w3))
                else (pre, Raised (Propagated e), w3))
           \<and> map shape pre = concat (map step_shapes (map int [0..<k]))
           \<and> length pre = 2 * k
           \<and> events_before_error (fst (run_telephone_stream X N asr_model tts_model initial_text w))
               = 2 * k
           \<and> (\<forall>ev\<in>set (fst (run_telephone_stream X N asr_model tts_model initial_text w)).
                \<not> (is_recognition_done ev \<and> field ''child_index'' ev = Some (JInt (int k))))"
proof -
  from loop_reaches_step [OF assms(4,5)] obtain pre where
    run: "children_loop X asr tts (range_py N) (strip initial_text) w2
             = (pre @ fst (children_loop X asr tts (int k # map int [Suc k..<nat N]) t wk),
                snd (children_loop X asr tts (int k # map int [Suc k..<nat N]) t wk))" and
    shp: "map shape pre = concat (map step_shapes (map int [0..<k]))" and
    len: "length pre = 2 * k"
    by blast
  have noerr: "\<forall>ev\<in>set pre. \<not> is_error ev"
    using step_shapes_not_error [OF shp] by blast
  have nostt: "\<not> (is_recognition_done ev \<and> field ''child_index'' ev = Some (JInt (int k)))"
    if "ev \<in> set pre" for ev
    using step_shapes_index_below [OF shp that]
    by (auto simp: is_recognition_done_def shape_def)
  have errnostt: "\<not> is_recognition_done (tts_error_event (int k) m)" for m
    by (simp add: is_recognition_done_def field_def tts_error_event_def)
  let ?run = "run_telephone_stream X N asr_model tts_model initial_text w"
  have eq: "?run = (if is_Exception e then
                  (case exc_str e of
                     Inr message \<Rightarrow> (pre @ [tts_error_event (int k) message], Returned, w3)
                   | Inl e' \<Rightarrow> (pre, Raised (Propagated e'), w3))
                else (pre, Raised (Propagated e), w3))"
    unfolding run_telephone_stream_resolved [OF assms(1,2,3)] run
    by (simp add: assms(6) split: sum.splits)
  have c4: "events_before_error (fst ?run) = 2 * k"
    unfolding eq using events_before_error_append [OF noerr] len
    by (simp split: sum.splits)
  have c5: "\<forall>ev\<in>set (fst ?run).
      \<not> (is_recognition_done ev \<and> field ''child_index'' ev = Some (JInt (int k)))"
    unfolding eq using nostt errnostt by (auto split: sum.splits)
  from eq have c1: "?run = (if is_Exception e then
                  (case exc_str e of
                     Inr message \<Rightarrow>
                       (pre @ [[(''type'', JStr ''error''), (''step'', JStr ''tts''),
                                (''child_index'', JInt (int k)), (''message'', JStr message)]],
                        Returned, w3)
                   | Inl e' \<Rightarrow> (pre, Raised (Propagated e'), w3))
                else (pre, Raised (Propagated e), w3))"
    unfolding tts_error_event_def .
  show ?thesis
    by (rule exI [of _ pre]) (intro conjI c1 shp len c4 c5)
qed

theorem synthesis_failure_witness:
  "run_telephone_stream
      (stub_extern (failing_tts 1 (BackendExc True (Inr ''CUDA out of memory'')))
                   (\<lambda>j. Inr ''hello world''))
      3 ''whisper'' ''chatterbox'' ''hi'' (0, 0)
     = ([tts_event 0 ''hi'' ''UklGRg=='', stt_event 0 ''hello world'',
         [(''type'', JStr ''error''), (''step'', JStr ''tts''),
          (''child_index'', JInt 1), (''message'', JStr ''CUDA out of memory'')]],
        Returned, (2, 1))
   \<and> events_before_error
        (fst (run_telephone_stream
                (stub_extern (failing_tts 1 (BackendExc True (Inr ''CUDA out of memory'')))
                             (\<lambda>j. Inr ''hello world''))
                3 ''whisper'' ''chatterbox'' ''hi'' (0, 0))) = 2"
proof -
  let ?X = "stub_extern (failing_tts 1 (BackendExc True (Inr ''CUDA out of memory'')))
                        (\<lambda>j. Inr ''hello world'')"
  have h4: "int 1 < 3" by simp
  have h5: "chain_state ?X LocalWhisperASRAdapter ChatterboxTTSAdapter 1 (strip ''hi'') (0, 0)
              = Some (''hello world'', (1, 1))"
    by (simp add: strip_hi stub_extern_def failing_tts_def)
  have h6: "synthesize ?X ChatterboxTTSAdapter ''hello world'' (1, 1)
              = (Inl (BackendExc True (Inr ''CUDA out of memory'')), (2, 1))"
    by (simp add: stub_extern_def failing_tts_def)
  have r: "range_py 3 = [0, 1, 2]" by (simp add: range_py_def eval_nat_numeral upt_rec)
  have run: "run_telephone_stream ?X 3 ''whisper'' ''chatterbox'' ''hi'' (0, 0)
     = ([tts_event 0 ''hi'' ''UklGRg=='', stt_event 0 ''hello world'',
         [(''type'', JStr ''error''), (''step'', JStr ''tts''),
          (''child_index'', JInt 1), (''message'', JStr ''CUDA out of memory'')]],
        Returned, (2, 1))"
    unfolding run_telephone_stream_resolved [OF nonblank_hi stub_resolves(1) stub_resolves(2)]
      r strip_hi
    by (simp add: stub_extern_def failing_tts_def b64_char_def b64_alphabet_def
        tts_error_event_def)
  from synthesis_failure_events [OF nonblank_hi stub_resolves(1) stub_resolves(2) h4 h5 h6]
  have "events_before_error (fst (run_telephone_stream ?X 3 ''whisper'' ''chatterbox'' ''hi'' (0, 0)))
          = 2 * 1"
    by blast
  with run show ?thesis by simp
qed

theorem synthesis_failure_counterexample:
  "events_before_error
     (fst (run_telephone_stream
             (stub_extern (failing_tts 0 (BackendExc True (Inr ''model not found'')))
                          (\<lambda>j. Inr ''hello world''))
             2 ''whisper'' ''chatterbox'' ''hi'' (0, 0))) = 0
   \<and> fst (run_telephone_stream
             (stub_extern (failing_tts 0 (BackendExc True (Inr ''model not found'')))
                          (\<lambda>j. Inr ''hello world''))
             2 ''whisper'' ''chatterbox'' ''hi'' (0, 0))
       = [[(''type'', JStr ''error''), (''step'', JStr ''tts''),
           (''child_index'', JInt 0), (''message'', JStr ''model not found'')]]
   \<and> (0::nat) \<noteq> 2 * 0 + 1"
proof -
  let ?X = "stub_extern (failing_tts 0 (BackendExc True (Inr ''model not found'')))
                        (\<lambda>j. Inr ''hello world'')"
  have r: "range_py 2 = [0, 1]" by (simp add: range_py_def eval_nat_numeral upt_rec)
  have run: "run_telephone_stream ?X 2 ''whisper'' ''chatterbox'' ''hi'' (0, 0)
     = ([[(''type'', JStr ''error''), (''step'', JStr ''tts''),
          (''child_index'', JInt 0), (''message'', JStr ''model not found'')]],
        Returned, (1, 0))"
    unfolding run_telephone_stream_resolved [OF nonblank_hi stub_resolves(1) stub_resolves(2)]
      r strip_hi
    by (simp add: stub_extern_def failing_tts_def tts_error_event_def)
  have "events_before_error
          [[(''type'', JStr ''error''), (''step'', JStr ''tts''),
            (''child_index'', JInt 0), (''message'', JStr ''model not found'')]] = 0"
    by (simp add: events_before_error_def is_error_def field_def)
  with run show ?thesis by simp
qed

subsection \<open>Exceptions of the backends\<close>

text \<open>
  Claim C8, as amended. At every step \<open>k\<close> reached with all earlier steps successful
  (their \<open>2k\<close> progress events yielded), every exception raised by the synthesis or by
  the recognition call whose class derives from \<open>Exception\<close> and whose \<open>str(e)\<close>
  returns is caught: the stream ends with an \<open>error\<close> event whose \<open>child_index\<close>
  is \<open>k\<close>, whose \<open>step\<close> is the failing stage (\<open>tts\<close> or \<open>stt\<close>) and whose
  \<open>message\<close> is the text \<open>str(e)\<close> returned, and the generator returns instead of
  propagating the exception. (An exception that derives from \<open>BaseException\<close> only is
  not caught by \<open>except Exception\<close>, and an exception raised by \<open>str(e)\<close> inside the
  handler is not caught either; both leave the generator.)
\<close>

theorem backend_exception_becomes_error_event:
  assumes "\<exists>c\<in>set initial_text. \<not> isspace c"
    and "get_asr X asr_model w = (Inr asr, w1)"
    and "get_tts X tts_model w1 = (Inr tts, w2)"
    and "int k < N"
    and "chain_state X asr tts k (strip initial_text) w2 = Some (t, wk)"
  shows "\<exists>pre. length pre = 2 * k
           \<and> map shape pre = concat (map step_shapes (map int [0..<k]))
           \<and> (\<forall>ev\<in>set pre. \<not> is_terminal ev)
           \<and> (\<forall>e w3 m. synthesize X tts t wk = (Inl e, w3) \<longrightarrow> is_Exception e \<longrightarrow>
                 exc_str e = Inr m \<longrightarrow>
                 run_telephone_stream X N asr_model tts_model initial_text w
                   = (pre @ [[(''type'', JStr ''error''), (''step'', JStr ''tts''),
                              (''child_index'', JInt (int k)), (''message'', JStr m)]],
                      Returned, w3))
           \<and> (\<forall>a w3 e w4 m. synthesize X tts t wk = (Inr a, w3) \<longrightarrow>
                 transcribe X asr a ''audio/wav'' w3 = (Inl e, w4) \<longrightarrow> is_Exception e \<longrightarrow>
                 exc_str e = Inr m \<longrightarrow>
                 run_telephone_stream X N asr_model tts_model initial_text w
                   = (pre @ [tts_event (int k) t (b64encode a),
                             [(''type'', JStr ''error''), (''step'', JStr ''stt''),
                              (''child_index'', JInt (int k)), (''message'', JStr m)]],
                      Returned, w4))"
proof -
  from loop_reaches_step [OF assms(4,5)] obtain pre where
    run: "children_loop X asr tts (range_py N) (strip initial_text) w2
             = (pre @ fst (children_loop X asr tts (int k # map int [Suc k..<nat N]) t wk),
                snd (children_loop X asr tts (int k # map int [Suc k..<nat N]) t wk))" and
    shp: "map shape pre = concat (map step_shapes (map int [0..<k]))" and
    len: "length pre = 2 * k"
    by blast
  have nt: "\<forall>ev\<in>set pre. \<not> is_terminal ev"
    using step_shapes_not_terminal [OF shp] by blast
  let ?run = "run_telephone_stream X N asr_model tts_model initial_text w"
  have tts: "?run = (pre @ [[(''type'', JStr ''error''), (''step'', JStr ''tts''),
                             (''child_index'', JInt (int k)), (''message'', JStr m)]],
                     Returned, w3)"
    if "synthesize X tts t wk = (Inl e, w3)" and "is_Exception e" and "exc_str e = Inr m"
    for e w3 m
    unfolding run_telephone_stream_resolved [OF assms(1,2,3)] run
    using that by (simp add: tts_error_event_def)
  have stt: "?run = (pre @ [tts_event (int k) t (b64encode a),
                            [(''type'', JStr ''error''), (''step'', JStr ''stt''),
                             (''child_index'', JInt (int k)), (''message'', JStr m)]],
                     Returned, w4)"
    if "synthesize X tts t wk = (Inr a, w3)"
      and "transcribe X asr a ''audio/wav'' w3 = (Inl e, w4)" and "is_Exception e"
      and "exc_str e = Inr m" for a w3 e w4 m
    unfolding run_telephone_stream_resolved [OF assms(1,2,3)] run
    using that by (simp add: stt_error_event_def)
  have c4: "\<forall>e w3 m. synthesize X tts t wk = (Inl e, w3) \<longrightarrow> is_Exception e \<longrightarrow>
                 exc_str e = Inr m \<longrightarrow>
                 ?run = (pre @ [[(''type'', JStr ''error''), (''step'', JStr ''tts''),
                                 (''child_index'', JInt (int k)), (''message'', JStr m)]],
                         Returned, w3)"
    using tts by (intro allI impI)
  have c5: "\<forall>a w3 e w4 m. synthesize X tts t wk = (Inr a, w3) \<longrightarrow>
                 transcribe X asr a ''audio/wav'' w3 = (Inl e, w4) \<longrightarrow> is_Exception e \<longrightarrow>
                 exc_str e = Inr m \<longrightarrow>
                 ?run = (pre @ [tts_event (int k) t (b64encode a),
                                [(''type'', JStr ''error''), (''step'', JStr ''stt''),
                                 (''child_index'', JInt (int k)), (''message'', JStr m)]],
                         Returned, w4)"
    using stt by (intro allI impI)
  show ?thesis
    by (rule exI [of _ pre]) (intro conjI len shp nt c4 c5)
qed

theorem backend_exception_witness:
  "run_telephone_stream
      (stub_extern (\<lambda>i. Inr [0x52, 0x49, 0x46, 0x46])
                   (failing_asr 1 (BackendExc True (Inr ''decoder failed''))))
      3 ''whisper'' ''chatterbox'' ''hi'' (0, 0)
     = ([tts_event 0 ''hi'' ''UklGRg=='', stt_event 0 ''hello world'',
         tts_event 1 ''hello world'' ''UklGRg=='',
         [(''type'', JStr ''error''), (''step'', JStr ''stt''),
          (''child_index'', JInt 1), (''message'', JStr ''decoder failed'')]],
        Returned, (2, 2))"
proof -
  let ?X = "stub_extern (\<lambda>i. Inr [0x52, 0x49, 0x46, 0x46])
                        (failing_asr 1 (BackendExc True (Inr ''decoder failed'')))"
  have h4: "int 1 < 3" by simp
  have h5: "chain_state ?X LocalWhisperASRAdapter ChatterboxTTSAdapter 1 (strip ''hi'') (0, 0)
              = Some (''hello world'', (1, 1))"
    by (simp add: strip_hi stub_extern_def failing_asr_def)
  have h6: "synthesize ?X ChatterboxTTSAdapter ''hello world'' (1, 1)
              = (Inr [0x52, 0x49, 0x46, 0x46], (2, 1))"
    by (simp add: stub_extern_def)
  have h7: "transcribe ?X LocalWhisperASRAdapter [0x52, 0x49, 0x46, 0x46] ''audio/wav'' (2, 1)
              = (Inl (BackendExc True (Inr ''decoder failed'')), (2, 2))"
    by (simp add: stub_extern_def failing_asr_def)
  have h8: "is_Exception (BackendExc True (Inr ''decoder failed''))" by simp
  have h9: "exc_str (BackendExc True (Inr ''decoder failed'')) = Inr ''decoder failed''" by simp
  have b: "b64encode [0x52, 0x49, 0x46, 0x46] = ''UklGRg==''"
    by (simp add: b64_char_def b64_alphabet_def)
  from backend_exception_becomes_error_event
    [OF nonblank_hi stub_resolves(1) stub_resolves(2) h4 h5]
  obtain pre where
    len: "length pre = 2 * 1" and
    all: "\<forall>a w3 e w4 m. synthesize ?X ChatterboxTTSAdapter ''hello world'' (1, 1) = (Inr a, w3) \<longrightarrow>
            transcribe ?X LocalWhisperASRAdapter a ''audio/wav'' w3 = (Inl e, w4) \<longrightarrow>
            is_Exception e \<longrightarrow> exc_str e = Inr m \<longrightarrow>
            run_telephone_stream ?X 3 ''whisper'' ''chatterbox'' ''hi'' (0, 0)
              = (pre @ [tts_event (int 1) ''hello world'' (b64encode a),
                        [(''type'', JStr ''error''), (''step'', JStr ''stt''),
                         (''child_index'', JInt (int 1)), (''message'', JStr m)]],
                 Returned, w4)"
    by (elim exE conjE)
  have run: "run_telephone_stream ?X 3 ''whisper'' ''chatterbox'' ''hi'' (0, 0)
            = (pre @ [tts_event (int 1) ''hello world'' (b64encode [0x52, 0x49, 0x46, 0x46]),
                      [(''type'', JStr ''error''), (''step'', JStr ''stt''),
                       (''child_index'', JInt (int 1)), (''message'', JStr ''decoder failed'')]],
               Returned, (2, 2))"
    by (rule all [THEN spec, THEN spec, THEN spec, THEN spec, THEN spec,
          THEN mp, THEN mp, THEN mp, THEN mp, OF h6 h7 h8 h9])
  have r: "range_py 3 = [0, 1, 2]" by (simp add: range_py_def eval_nat_numeral upt_rec)
  have direct: "take 2 (fst (run_telephone_stream ?X 3 ''whisper'' ''chatterbox'' ''hi'' (0, 0)))
      = [tts_event 0 ''hi'' ''UklGRg=='', stt_event 0 ''hello world'']"
    unfolding run_telephone_stream_resolved [OF nonblank_hi stub_resolves(1) stub_resolves(2)]
      r strip_hi
    by (simp add: stub_extern_def failing_asr_def b64_char_def b64_alphabet_def)
  from len have "take 2 (pre @ [x, y]) = pre" for x y :: event by simp
  with direct run have "pre = [tts_event 0 ''hi'' ''UklGRg=='', stt_event 0 ''hello world'']"
    by simp
  with run [unfolded b] show ?thesis by simp
qed

theorem backend_exception_counterexample:
  "run_telephone_stream
      (stub_extern (\<lambda>i. Inr [0x52, 0x49, 0x46, 0x46])
                   (failing_asr 0 (BackendExc False (Inr ''KeyboardInterrupt''))))
      3 ''whisper'' ''chatterbox'' ''hi'' (0, 0)
     = ([tts_event 0 ''hi'' ''UklGRg==''],
        Raised (Propagated (BackendExc False (Inr ''KeyboardInterrupt''))), (1, 1))"
proof -
  have r: "range_py 3 = [0, 1, 2]" by (simp add: range_py_def eval_nat_numeral upt_rec)
  show ?thesis
    unfolding run_telephone_stream_resolved [OF nonblank_hi stub_resolves(1) stub_resolves(2)]
      r strip_hi
    by (simp add: stub_extern_def failing_asr_def b64_char_def b64_alphabet_def)
qed

subsection \<open>The terminal event\<close>




subsection \<open>Unknown model keys\<close>

text \<open>
  Claim C6, as amended. When the ASR key or the TTS key of a request is absent from its
  registry table, the lookup of an absent key fails with the error of an unknown model
  (\<open>HTTPException\<close> 400, ``Unknown ASR model'' or ``Unknown TTS model'' with the key);
  the run is aborted before any step: the generator yields no event, an exception leaves
  it, and neither \<open>synthesize\<close> nor \<open>transcribe\<close> is called. The exception that
  leaves the generator is the unknown-ASR error when the ASR key is absent, and the
  unknown-TTS error when the TTS key is absent and the ASR adapter, which is resolved
  first, was constructed. (When the constructor of the ASR adapter raises, its exception
  leaves the generator and the TTS key is never looked up.)
\<close>

theorem unknown_backend_aborts_run:
  assumes "ASR_MODELS asr_model = None \<or> TTS_MODELS tts_model = None"
  shows "(ASR_MODELS asr_model = None \<longrightarrow>
            get_asr X asr_model w
              = (Inl (HTTPException 400 (''Unknown ASR model: '' @ asr_model)), w)
            \<and> run_telephone_stream X N asr_model tts_model initial_text w
              = ([], Raised (HTTPException 400 (''Unknown ASR model: '' @ asr_model)), w))
       \<and> (TTS_MODELS tts_model = None \<longrightarrow>
            (\<forall>v. get_tts X tts_model v
                   = (Inl (HTTPException 400 (''Unknown TTS model: '' @ tts_model)), v))
            \<and> (\<forall>asr w1. get_asr X asr_model w = (Inr asr, w1) \<longrightarrow>
                  run_telephone_stream X N asr_model tts_model initial_text w
                    = ([], Raised (HTTPException 400 (''Unknown TTS model: '' @ tts_model)), w1)))
       \<and> fst (run_telephone_stream X N asr_model tts_model initial_text w) = []
       \<and> fst (snd (run_telephone_stream X N asr_model tts_model initial_text w)) \<noteq> Returned
       \<and> (\<forall>f g. run_telephone_stream (X\<lparr>synthesize := f, transcribe := g\<rparr>) N asr_model
                   tts_model initial_text w
                 = run_telephone_stream X N asr_model tts_model initial_text w)"
proof -
  let ?run = "run_telephone_stream X N asr_model tts_model initial_text w"
  have a: "get_asr X asr_model w
              = (Inl (HTTPException 400 (''Unknown ASR model: '' @ asr_model)), w)
           \<and> ?run = ([], Raised (HTTPException 400 (''Unknown ASR model: '' @ asr_model)), w)"
    if "ASR_MODELS asr_model = None"
    using that by (simp add: get_asr_def run_telephone_stream_def)
  have t1: "get_tts X tts_model v
              = (Inl (HTTPException 400 (''Unknown TTS model: '' @ tts_model)), v)"
    if "TTS_MODELS tts_model = None" for v
    using that by (simp add: get_tts_def)
  have t2: "?run = ([], Raised (HTTPException 400 (''Unknown TTS model: '' @ tts_model)), w1)"
    if "TTS_MODELS tts_model = None" "get_asr X asr_model w = (Inr asr, w1)" for asr w1
    using that t1 by (simp add: run_telephone_stream_def)
  have none: "fst ?run = [] \<and> fst (snd ?run) \<noteq> Returned"
  proof (cases "get_asr X asr_model w")
    case (Pair r w1)
    show ?thesis
    proof (cases r)
      case (Inl e)
      with Pair show ?thesis by (simp add: run_telephone_stream_def)
    next
      case (Inr asr)
      with Pair have "ASR_MODELS asr_model \<noteq> None"
        by (auto simp: get_asr_def split: option.splits)
      with assms have "TTS_MODELS tts_model = None" by simp
      from t2 [OF this] Pair Inr show ?thesis by simp
    qed
  qed
  have c1: "ASR_MODELS asr_model = None \<longrightarrow>
            get_asr X asr_model w
              = (Inl (HTTPException 400 (''Unknown ASR model: '' @ asr_model)), w)
            \<and> ?run = ([], Raised (HTTPException 400 (''Unknown ASR model: '' @ asr_model)), w)"
    using a by (rule impI)
  have c2: "TTS_MODELS tts_model = None \<longrightarrow>
            (\<forall>v. get_tts X tts_model v
                   = (Inl (HTTPException 400 (''Unknown TTS model: '' @ tts_model)), v))
            \<and> (\<forall>asr w1. get_asr X asr_model w = (Inr asr, w1) \<longrightarrow>
                  ?run = ([], Raised (HTTPException 400 (''Unknown TTS model: '' @ tts_model)), w1))"
  proof (intro impI conjI allI)
    fix v assume "TTS_MODELS tts_model = None"
    then show "get_tts X tts_model v
                 = (Inl (HTTPException 400 (''Unknown TTS model: '' @ tts_model)), v)"
      by (rule t1)
  next
    fix asr w1
    assume "TTS_MODELS tts_model = None" and "get_asr X asr_model w = (Inr asr, w1)"
    then show "?run = ([], Raised (HTTPException 400 (''Unknown TTS model: '' @ tts_model)), w1)"
      by (rule t2)
  qed
  have c5: "\<forall>f g. run_telephone_stream (X\<lparr>synthesize := f, transcribe := g\<rparr>) N asr_model
                   tts_model initial_text w = ?run"
    by (intro allI) (rule run_telephone_stream_backends_irrelevant_unresolved [OF assms])
  from none have c3: "fst ?run = []" and c4: "fst (snd ?run) \<noteq> Returned"
    by (rule conjunct1, rule conjunct2)
  show ?thesis
    by (intro conjI) (rule c1, rule c2, rule c3, rule c4, rule c5)
qed

theorem unknown_backend_witness:
  "run_telephone_stream echo_extern 3 ''whisper'' ''nonexistent-model'' ''hello world'' (0, 0)
     = ([], Raised (HTTPException 400 ''Unknown TTS model: nonexistent-model''), (0, 0))
   \<and> run_telephone_stream echo_extern 3 ''nonexistent-model'' ''chatterbox'' ''hello world'' (0, 0)
     = ([], Raised (HTTPException 400 ''Unknown ASR model: nonexistent-model''), (0, 0))"
proof -
  have h1: "ASR_MODELS ''whisper'' = None \<or> TTS_MODELS ''nonexistent-model'' = None"
    by (simp add: TTS_MODELS_def)
  have h1': "TTS_MODELS ''nonexistent-model'' = None"
    by (simp add: TTS_MODELS_def)
  have h2: "ASR_MODELS ''nonexistent-model'' = None \<or> TTS_MODELS ''chatterbox'' = None"
    by (simp add: ASR_MODELS_def)
  have h2': "ASR_MODELS ''nonexistent-model'' = None"
    by (simp add: ASR_MODELS_def)
  note tts_absent = unknown_backend_aborts_run [OF h1, of echo_extern "(0, 0)" 3 "''hello world''"]
  note asr_absent = unknown_backend_aborts_run [OF h2, of echo_extern "(0, 0)" 3 "''hello world''"]
  have "run_telephone_stream echo_extern 3 ''whisper'' ''nonexistent-model'' ''hello world'' (0, 0)
     = ([], Raised (HTTPException 400 (''Unknown TTS model: '' @ ''nonexistent-model'')), (0, 0))"
    by (rule tts_absent [THEN conjunct2, THEN conjunct1, THEN mp, OF h1', THEN conjunct2,
          THEN spec, THEN spec, THEN mp, OF echo_resolves(1)])
  moreover
  have "run_telephone_stream echo_extern 3 ''nonexistent-model'' ''chatterbox'' ''hello world'' (0, 0)
     = ([], Raised (HTTPException 400 (''Unknown ASR model: '' @ ''nonexistent-model'')), (0, 0))"
    by (rule asr_absent [THEN conjunct1, THEN mp, OF h2', THEN conjunct2])
  ultimately show ?thesis by simp
qed

theorem unknown_backend_counterexample:
  "TTS_MODELS ''nonexistent-model'' = None
   \<and> run_telephone_stream unloadable_whisper_extern 3 ''whisper'' ''nonexistent-model''
        ''hello world'' (0, 0)
     = ([], Raised (Propagated (BackendExc True (Inr ''checkpoint not found''))), (0, 0))"
  by (simp add: run_telephone_stream_def get_asr_def ASR_MODELS_def TTS_MODELS_def
      unloadable_whisper_extern_def echo_extern_def stub_extern_def)

subsection \<open>A blank initial message\<close>

text \<open>
  Claim C7. When the initial message is empty or consists of whitespace only, and no
  audio is uploaded, the request is rejected and no event is ever produced: the
  multipart endpoint raises \<open>HTTPException\<close> 400 before any response is started (also
  when the text is absent), the JSON endpoint raises (the 400 of the handler, unless the
  body already failed validation), and the generator itself, called with such a text,
  yields nothing and ends by an exception, which is the \<open>ValueError\<close> of the empty
  text once both adapters have resolved.
\<close>

theorem blank_message_rejected:
  assumes "\<forall>c\<in>set s. isspace c"
  shows "start_game_stream X N asr_model tts_model (Some s) None w
           = (Inl (HTTPException 400 ''Provide either 'text' or 'audio' file.''), w)
       \<and> start_game_stream X N asr_model tts_model None None w
           = (Inl (HTTPException 400 ''Provide either 'text' or 'audio' file.''), w)
       \<and> start_game_stream_json X (body\<lparr>b_text := Some s\<rparr>) w
           = (Inl (case parse_GameParams (body\<lparr>b_text := Some s\<rparr>) of
                     Inl e \<Rightarrow> e
                   | Inr params \<Rightarrow> HTTPException 400 ''Provide 'text' in body.''), w)
       \<and> fst (run_telephone_stream X N asr_model tts_model s w) = []
       \<and> fst (snd (run_telephone_stream X N asr_model tts_model s w)) \<noteq> Returned
       \<and> (\<forall>asr w1 tts w2. get_asr X asr_model w = (Inr asr, w1) \<longrightarrow>
             get_tts X tts_model w1 = (Inr tts, w2) \<longrightarrow>
             run_telephone_stream X N asr_model tts_model s w
               = ([], Raised (ValueError ''Initial text is empty''), w2))"
proof -
  from assms have blank: "strip s = []" by (simp add: strip_empty_iff)
  have empty: "strip [] = []" by (simp add: strip_def)
  have m1: "start_game_stream X N asr_model tts_model (Some s) None w
           = (Inl (HTTPException 400 ''Provide either 'text' or 'audio' file.''), w)"
    by (simp add: start_game_stream_def blank)
  have m2: "start_game_stream X N asr_model tts_model None None w
           = (Inl (HTTPException 400 ''Provide either 'text' or 'audio' file.''), w)"
    by (simp add: start_game_stream_def empty)
  have j: "start_game_stream_json X (body\<lparr>b_text := Some s\<rparr>) w
           = (Inl (case parse_GameParams (body\<lparr>b_text := Some s\<rparr>) of
                     Inl e \<Rightarrow> e
                   | Inr params \<Rightarrow> HTTPException 400 ''Provide 'text' in body.''), w)"
  proof (cases "parse_GameParams (body\<lparr>b_text := Some s\<rparr>)")
    case (Inl e)
    then show ?thesis by (simp add: start_game_stream_json_def)
  next
    case (Inr params)
    then have "p_text params = Some s"
      by (auto simp: parse_GameParams_def Let_def split: if_splits)
    with Inr show ?thesis by (simp add: start_game_stream_json_def blank)
  qed
  let ?run = "run_telephone_stream X N asr_model tts_model s w"
  have v: "?run = ([], Raised (ValueError ''Initial text is empty''), w2)"
    if "get_asr X asr_model w = (Inr asr, w1)" "get_tts X tts_model w1 = (Inr tts, w2)"
    for asr w1 tts w2
    using that by (simp add: run_telephone_stream_def blank)
  have none: "fst ?run = [] \<and> fst (snd ?run) \<noteq> Returned"
    by (simp add: run_telephone_stream_def blank split: prod.splits sum.splits)
  have c6: "\<forall>asr w1 tts w2. get_asr X asr_model w = (Inr asr, w1) \<longrightarrow>
             get_tts X tts_model w1 = (Inr tts, w2) \<longrightarrow>
             ?run = ([], Raised (ValueError ''Initial text is empty''), w2)"
    using v by (intro allI impI)
  from none have c4: "fst ?run = []" and c5: "fst (snd ?run) \<noteq> Returned"
    by (rule conjunct1, rule conjunct2)
  show ?thesis
    by (intro conjI) (rule m1, rule m2, rule j, rule c4, rule c5, rule c6)
qed

theorem blank_message_witness:
  "start_game_stream echo_extern 4 ''whisper'' ''chatterbox'' (Some [CHR '' '', CHR 0x09, CHR 0x0A])
       None (0, 0)
     = (Inl (HTTPException 400 ''Provide either 'text' or 'audio' file.''), (0, 0))
   \<and> start_game_stream_json echo_extern
        \<lparr>b_num_children = Some 4, b_asr_model = None, b_tts_model = None,
         b_text = Some [CHR '' '', CHR 0x09, CHR 0x0A]\<rparr> (0, 0)
     = (Inl (HTTPException 400 ''Provide 'text' in body.''), (0, 0))
   \<and> run_telephone_stream echo_extern 4 ''whisper'' ''chatterbox'' [CHR '' '', CHR 0x09, CHR 0x0A]
        (0, 0)
     = ([], Raised (ValueError ''Initial text is empty''), (0, 0))"
proof -
  have h: "\<forall>c\<in>set [CHR '' '', CHR 0x09, CHR 0x0A]. isspace c"
    by (simp add: isspace_def)
  note T = blank_message_rejected [OF h, of echo_extern 4 "''whisper''" "''chatterbox''" "(0, 0)"
      "\<lparr>b_num_children = Some 4, b_asr_model = None, b_tts_model = None, b_text = None\<rparr>"]
  have p: "parse_GameParams
             \<lparr>b_num_children = Some 4, b_asr_model = None, b_tts_model = None,
              b_text = Some [CHR '' '', CHR 0x09, CHR 0x0A]\<rparr>
           = Inr \<lparr>p_num_children = 4, p_asr_model = ''whisper'', p_tts_model = ''chatterbox'',
                  p_text = Some [CHR '' '', CHR 0x09, CHR 0x0A]\<rparr>"
    by (simp add: parse_GameParams_def)
  have "start_game_stream echo_extern 4 ''whisper'' ''chatterbox''
          (Some [CHR '' '', CHR 0x09, CHR 0x0A]) None (0, 0)
     = (Inl (HTTPException 400 ''Provide either 'text' or 'audio' file.''), (0, 0))"
    by (rule T [THEN conjunct1])
  moreover have "start_game_stream_json echo_extern
        \<lparr>b_num_children = Some 4, b_asr_model = None, b_tts_model = None,
         b_text = Some [CHR '' '', CHR 0x09, CHR 0x0A]\<rparr> (0, 0)
     = (Inl (HTTPException 400 ''Provide 'text' in body.''), (0, 0))"
    using T [THEN conjunct2, THEN conjunct2, THEN conjunct1] by (simp add: p)
  moreover have "run_telephone_stream echo_extern 4 ''whisper'' ''chatterbox''
        [CHR '' '', CHR 0x09, CHR 0x0A] (0, 0)
     = ([], Raised (ValueError ''Initial text is empty''), (0, 0))"
    by (rule T [THEN conjunct2, THEN conjunct2, THEN conjunct2, THEN conjunct2, THEN conjunct2,
          THEN spec, THEN spec, THEN spec, THEN spec, THEN mp, THEN mp,
          OF echo_resolves(1) echo_resolves(2)])
  ultimately show ?thesis by (intro conjI)
qed

subsection \<open>A non-positive number of participants\<close>

text \<open>
  Claim C5 does not hold of the code. \<open>GameParams\<close> declares \<open>num_children\<close> with
  \<open>ge=1, le=20\<close>, so the JSON endpoint rejects a count of 0; the multipart endpoint
  declares the same field without a bound and \<open>_run_telephone_stream\<close> checks nothing,
  so the same request through the form is run and answered with a bare \<open>done\<close>
  event.
\<close>

theorem nonpositive_count_not_rejected_by_form:
  "start_game_stream echo_extern 0 ''whisper'' ''chatterbox'' (Some ''hi'') None (0, 0)
     = (Inr ([done_event ''hi''], Returned), (0, 0))
   \<and> start_game_stream_json echo_extern
        \<lparr>b_num_children = Some 0, b_asr_model = Some ''whisper'',
         b_tts_model = Some ''chatterbox'', b_text = Some ''hi''\<rparr> (0, 0)
     = (Inl (RequestValidationError ''num_children''), (0, 0))"
proof -
  have "run_telephone_stream echo_extern 0 ''whisper'' ''chatterbox'' ''hi'' (0, 0)
          = ([done_event ''hi''], Returned, (0, 0))"
    unfolding run_telephone_stream_resolved [OF nonblank_hi echo_resolves(1) echo_resolves(2)]
    by (simp add: range_py_def strip_hi)
  then have "start_game_stream echo_extern 0 ''whisper'' ''chatterbox'' (Some ''hi'') None (0, 0)
     = (Inr ([done_event ''hi''], Returned), (0, 0))"
    by (simp add: start_game_stream_def strip_hi)
  moreover have "start_game_stream_json echo_extern
        \<lparr>b_num_children = Some 0, b_asr_model = Some ''whisper'',
         b_tts_model = Some ''chatterbox'', b_text = Some ''hi''\<rparr> (0, 0)
     = (Inl (RequestValidationError ''num_children''), (0, 0))"
    by (simp add: start_game_stream_json_def parse_GameParams_def)
  ultimately show ?thesis by (intro conjI)
qed

subsection \<open>The audio payload\<close>

text \<open>
  Claim C9. For every step \<open>k\<close> whose synthesis succeeds (all earlier steps having
  succeeded), the event at position \<open>2k\<close> of the stream is the \<open>tts\<close> event of step
  \<open>k\<close>; its \<open>audio_base64\<close> field is the Base64 text of the bytes the backend
  returned, made of characters of the Base64 alphabet and the padding character only,
  and decoding that field gives back exactly those bytes.
\<close>

theorem audio_payload_round_trip:
  assumes "\<exists>c\<in>set initial_text. \<not> isspace c"
    and "get_asr X asr_model w = (Inr asr, w1)"
    and "get_tts X tts_model w1 = (Inr tts, w2)"
    and "int k < N"
    and "chain_state X asr tts k (strip initial_text) w2 = Some (t, wk)"
    and "synthesize X tts t wk = (Inr audio_bytes, w3)"
  shows "2 * k < length (fst (run_telephone_stream X N asr_model tts_model initial_text w))
       \<and> shape (fst (run_telephone_stream X N asr_model tts_model initial_text w) ! (2 * k))
           = (Some (JStr ''tts''), Some (JInt (int k)))
       \<and> field ''audio_base64''
            (fst (run_telephone_stream X N asr_model tts_model initial_text w) ! (2 * k))
           = Some (JStr (b64encode audio_bytes))
       \<and> (\<forall>c\<in>set (b64encode audio_bytes). c \<in> set b64_alphabet \<or> c = CHR ''='')
       \<and> decoded_audio
            (fst (run_telephone_stream X N asr_model tts_model initial_text w) ! (2 * k))
           = Some audio_bytes"
proof -
  from loop_reaches_step [OF assms(4,5)] obtain pre where
    run: "children_loop X asr tts (range_py N) (strip initial_text) w2
             = (pre @ fst (children_loop X asr tts (int k # map int [Suc k..<nat N]) t wk),
                snd (children_loop X asr tts (int k # map int [Suc k..<nat N]) t wk))" and
    len: "length pre = 2 * k"
    by blast
  from children_loop_first_event [OF assms(6)] obtain tl where
    hd: "fst (children_loop X asr tts (int k # map int [Suc k..<nat N]) t wk)
           = tts_event (int k) t (b64encode audio_bytes) # tl"
    by blast
  let ?evs = "fst (run_telephone_stream X N asr_model tts_model initial_text w)"
  have evs: "?evs = pre @ tts_event (int k) t (b64encode audio_bytes) # tl"
    unfolding run_telephone_stream_resolved [OF assms(1,2,3)] run hd by simp
  have nth: "?evs ! (2 * k) = tts_event (int k) t (b64encode audio_bytes)"
    unfolding evs using len by (simp add: nth_append)
  have c1: "2 * k < length ?evs" unfolding evs using len by simp
  have c2: "shape (?evs ! (2 * k)) = (Some (JStr ''tts''), Some (JInt (int k)))"
    unfolding nth by (rule shape_tts_event)
  have c3: "field ''audio_base64'' (?evs ! (2 * k)) = Some (JStr (b64encode audio_bytes))"
    unfolding nth by (rule field_audio_tts_event)
  have c4: "\<forall>c\<in>set (b64encode audio_bytes). c \<in> set b64_alphabet \<or> c = CHR ''=''"
    using b64encode_text_safe by blast
  have c5: "decoded_audio (?evs ! (2 * k)) = Some audio_bytes"
    unfolding nth by (rule decoded_audio_tts_event)
  show ?thesis
    by (intro conjI) (rule c1, rule c2, rule c3, rule c4, rule c5)
qed

theorem audio_payload_witness:
  "field ''audio_base64''
     (fst (run_telephone_stream echo_extern 2 ''whisper'' ''chatterbox'' ''hi'' (0, 0)) ! 2)
     = Some (JStr ''UklGRg=='')
   \<and> decoded_audio
        (fst (run_telephone_stream echo_extern 2 ''whisper'' ''chatterbox'' ''hi'' (0, 0)) ! 2)
     = Some [0x52, 0x49, 0x46, 0x46]"
proof -
  have h4: "int 1 < 2" by simp
  have h5: "chain_state echo_extern LocalWhisperASRAdapter ChatterboxTTSAdapter 1 (strip ''hi'')
              (0, 0) = Some (''hello world'', (1, 1))"
    by (simp add: strip_hi echo_extern_def stub_extern_def)
  have h6: "synthesize echo_extern ChatterboxTTSAdapter ''hello world'' (1, 1)
              = (Inr [0x52, 0x49, 0x46, 0x46], (2, 1))"
    by (simp add: echo_extern_def stub_extern_def)
  have b: "b64encode [0x52, 0x49, 0x46, 0x46] = ''UklGRg==''"
    by (simp add: b64_char_def b64_alphabet_def)
  note T = audio_payload_round_trip [OF nonblank_hi echo_resolves(1) echo_resolves(2) h4 h5 h6]
  have "field ''audio_base64''
     (fst (run_telephone_stream echo_extern 2 ''whisper'' ''chatterbox'' ''hi'' (0, 0)) ! (2 * 1))
     = Some (JStr (b64encode [0x52, 0x49, 0x46, 0x46]))"
    by (rule T [THEN conjunct2, THEN conjunct2, THEN conjunct1])
  moreover have "decoded_audio
        (fst (run_telephone_stream echo_extern 2 ''whisper'' ''chatterbox'' ''hi'' (0, 0)) ! (2 * 1))
     = Some [0x52, 0x49, 0x46, 0x46]"
    by (rule T [THEN conjunct2, THEN conjunct2, THEN conjunct2, THEN conjunct2])
  ultimately show ?thesis unfolding b by simp
qed

end
